theory Spec2Isabelle
  imports Main "HOL-Library.AList" "HOL-Library.Char_ord"
begin

section \<open>JavaScript values\<close>

text \<open>
  The server in \<^verbatim>\<open>src/index.ts\<close> moves untyped JavaScript values around: tool arguments
  arrive as JSON, requests to the provider SDK are object literals, and the SDK answers with
  \<^verbatim>\<open>{ data, error }\<close>. Values are modelled by one datatype. Objects are association lists in
  insertion order. Numbers are restricted to integers (no claim depends on fractions) and
  are printed in plain decimal, which is what JavaScript prints below \<open>10\<^sup>2\<^sup>1\<close>; a
  character is one 8-bit code unit.
\<close>

datatype jsval =
    JUndefined
  | JNull
  | JBool bool
  | JNum int
  | JStr string
  | JArr "jsval list"
  | JObj "(string \<times> jsval) list"

text \<open>\<^verbatim>\<open>if (v)\<close>, \<^verbatim>\<open>!v\<close>: JavaScript truthiness. Arrays and objects are truthy even when empty.\<close>

fun truthy :: "jsval \<Rightarrow> bool" where
  "truthy JUndefined = False"
| "truthy JNull = False"
| "truthy (JBool b) = b"
| "truthy (JNum n) = (n \<noteq> 0)"
| "truthy (JStr s) = (s \<noteq> [])"
| "truthy (JArr xs) = True"
| "truthy (JObj kvs) = True"

text \<open>\<^verbatim>\<open>a || b\<close> and \<^verbatim>\<open>a ?? b\<close>.\<close>

definition js_or :: "jsval \<Rightarrow> jsval \<Rightarrow> jsval" where
  "js_or a b = (if truthy a then a else b)"

definition nullish :: "jsval \<Rightarrow> jsval \<Rightarrow> jsval" where
  "nullish a b = (if a = JUndefined \<or> a = JNull then b else a)"

text \<open>\<^verbatim>\<open>typeof v === "string"\<close> and \<^verbatim>\<open>Array.isArray(v)\<close>.\<close>

fun is_string :: "jsval \<Rightarrow> bool" where
  "is_string (JStr s) = True"
| "is_string v = False"

fun is_array :: "jsval \<Rightarrow> bool" where
  "is_array (JArr xs) = True"
| "is_array v = False"

text \<open>
  Property read on an object literal (\<^verbatim>\<open>o.k\<close>, or destructuring \<^verbatim>\<open>({ k }) => ...\<close>): a missing
  key reads as \<^verbatim>\<open>undefined\<close>. \<open>has_prop\<close> is \<^verbatim>\<open>k in o\<close>; \<open>set_prop\<close> is the assignment
  \<^verbatim>\<open>o.k = v\<close>, which keeps the position of an existing key and appends a new one.
\<close>

type_synonym props = "(string \<times> jsval) list"

definition get_prop :: "props \<Rightarrow> string \<Rightarrow> jsval" where
  "get_prop kvs k = (case map_of kvs k of None \<Rightarrow> JUndefined | Some v \<Rightarrow> v)"

definition has_prop :: "props \<Rightarrow> string \<Rightarrow> bool" where
  "has_prop kvs k = (map_of kvs k \<noteq> None)"

definition set_prop :: "string \<Rightarrow> jsval \<Rightarrow> props \<Rightarrow> props" where
  "set_prop k v kvs = AList.update k v kvs"

text \<open>
  \<^verbatim>\<open>v?.k\<close> for the keys the handlers read (\<^verbatim>\<open>id\<close>, \<^verbatim>\<open>token\<close>, \<^verbatim>\<open>records\<close>, \<^verbatim>\<open>data\<close>): a nullish
  receiver gives \<^verbatim>\<open>undefined\<close>, and so does a primitive or an array, which has none of these
  properties.
\<close>

fun opt_member :: "jsval \<Rightarrow> string \<Rightarrow> jsval" where
  "opt_member (JObj kvs) k = get_prop kvs k"
| "opt_member v k = JUndefined"

text \<open>\<^verbatim>\<open>k in v\<close> for an object; other values have none of the keys used here.\<close>

fun has_member :: "jsval \<Rightarrow> string \<Rightarrow> bool" where
  "has_member (JObj kvs) k = has_prop kvs k"
| "has_member v k = False"

subsection \<open>Conversion to text\<close>

definition digit_char :: "nat \<Rightarrow> char" where
  "digit_char d = char_of (48 + d)"

fun show_nat :: "nat \<Rightarrow> string" where
  "show_nat n = (if n < 10 then [digit_char n] else show_nat (n div 10) @ [digit_char (n mod 10)])"

declare show_nat.simps [simp del]

definition show_int :: "int \<Rightarrow> string" where
  "show_int i = (if i < 0 then CHR ''-'' # show_nat (nat (- i)) else show_nat (nat i))"

text \<open>\<^verbatim>\<open>xs.join(sep)\<close> on an array of strings.\<close>

fun join :: "string \<Rightarrow> string list \<Rightarrow> string" where
  "join sep [] = []"
| "join sep [x] = x"
| "join sep (x # y # ys) = x @ sep @ join sep (y # ys)"

text \<open>
  String conversion as a template literal \<^verbatim>\<open>`${v}`\<close> performs it. An array converts by
  joining its elements with a comma, where \<^verbatim>\<open>null\<close> and \<^verbatim>\<open>undefined\<close> elements give the empty
  string.
\<close>

fun to_string :: "jsval \<Rightarrow> string" where
  "to_string JUndefined = ''undefined''"
| "to_string JNull = ''null''"
| "to_string (JBool b) = (if b then ''true'' else ''false'')"
| "to_string (JNum n) = show_int n"
| "to_string (JStr s) = s"
| "to_string (JArr xs) =
     join '','' (map (\<lambda>x. if x = JUndefined \<or> x = JNull then [] else to_string x) xs)"
| "to_string (JObj kvs) = ''[object Object]''"

text \<open>\<^verbatim>\<open>JSON.stringify\<close>: string quoting with the escapes of the language standard.\<close>

definition hex_char :: "nat \<Rightarrow> char" where
  "hex_char d = (if d < 10 then char_of (48 + d) else char_of (87 + d))"

definition quote_char :: "char \<Rightarrow> string" where
  "quote_char c =
     (if c = CHR 0x22 then [CHR 0x5C, CHR 0x22]
      else if c = CHR 0x5C then [CHR 0x5C, CHR 0x5C]
      else if c = CHR 0x08 then [CHR 0x5C, CHR ''b'']
      else if c = CHR 0x0C then [CHR 0x5C, CHR ''f'']
      else if c = CHR 0x0A then [CHR 0x5C, CHR ''n'']
      else if c = CHR 0x0D then [CHR 0x5C, CHR ''r'']
      else if c = CHR 0x09 then [CHR 0x5C, CHR ''t'']
      else if (of_char c :: nat) < 32
        then [CHR 0x5C, CHR ''u'', CHR ''0'', CHR ''0'',
              hex_char (of_char c div 16), hex_char (of_char c mod 16)]
      else [c])"

definition json_quote :: "string \<Rightarrow> string" where
  "json_quote s = [CHR 0x22] @ concat (map quote_char s) @ [CHR 0x22]"

text \<open>
  \<open>serialize gap ind v\<close> is the standard's serialisation of \<open>v\<close> at indentation \<open>ind\<close>
  with indentation unit \<open>gap\<close>; \<open>None\<close> stands for the result \<^verbatim>\<open>undefined\<close>. In an array an
  unserialisable element prints as \<^verbatim>\<open>null\<close>; in an object such a property is left out.
\<close>

fun serialize :: "string \<Rightarrow> string \<Rightarrow> jsval \<Rightarrow> string option" where
  "serialize gap ind JUndefined = None"
| "serialize gap ind JNull = Some ''null''"
| "serialize gap ind (JBool b) = Some (if b then ''true'' else ''false'')"
| "serialize gap ind (JNum n) = Some (show_int n)"
| "serialize gap ind (JStr s) = Some (json_quote s)"
| "serialize gap ind (JArr xs) =
     (let items = map (\<lambda>x. case serialize gap (ind @ gap) x of None \<Rightarrow> ''null'' | Some s \<Rightarrow> s) xs
      in Some (if items = [] then ''[]''
               else if gap = [] then ''['' @ join '','' items @ '']''
               else ''['' @ [CHR 0x0A] @ ind @ gap
                    @ join ('','' @ [CHR 0x0A] @ ind @ gap) items
                    @ [CHR 0x0A] @ ind @ '']''))"
| "serialize gap ind (JObj kvs) =
     (let members = concat (map (\<lambda>kv. case serialize gap (ind @ gap) (snd kv) of
                                         None \<Rightarrow> []
                                       | Some s \<Rightarrow> [json_quote (fst kv)
                                                     @ (if gap = [] then '':'' else '': '') @ s]) kvs)
      in Some (if members = [] then ''{}''
               else if gap = [] then ''{'' @ join '','' members @ ''}''
               else ''{'' @ [CHR 0x0A] @ ind @ gap
                    @ join ('','' @ [CHR 0x0A] @ ind @ gap) members
                    @ [CHR 0x0A] @ ind @ ''}''))"

text \<open>\<^verbatim>\<open>JSON.stringify(v)\<close> and \<^verbatim>\<open>JSON.stringify(v, null, 2)\<close>, as JavaScript values.\<close>

definition JSON_stringify :: "jsval \<Rightarrow> jsval" where
  "JSON_stringify v = (case serialize [] [] v of None \<Rightarrow> JUndefined | Some s \<Rightarrow> JStr s)"

definition JSON_stringify2 :: "jsval \<Rightarrow> jsval" where
  "JSON_stringify2 v = (case serialize ''  '' [] v of None \<Rightarrow> JUndefined | Some s \<Rightarrow> JStr s)"

section \<open>The schema library\<close>

text \<open>
  Tool parameters are declared with the schema combinators of the validation library
  (\<^verbatim>\<open>z.string()\<close>, \<^verbatim>\<open>z.array(...)\<close>, ...). The library is not part of the repository; the
  combinators below model its documented behaviour. A schema maps an input to the issues it
  found and, unless parsing was aborted, an output value: no issue and a value is a valid
  result, issues with a value a value that failed a refinement, and no value an input of the
  wrong type.
\<close>

datatype pathelem = Key string | Idx nat

datatype issue_code =
  invalid_type | invalid_string | too_small | too_big | invalid_union | invalid_enum_value

datatype issue = Issue (path: "pathelem list") (code: issue_code)

type_synonym parsed = "issue list \<times> jsval option"
type_synonym schema = "jsval \<Rightarrow> parsed"

definition at :: "pathelem \<Rightarrow> parsed \<Rightarrow> parsed" where
  "at p r = (map (\<lambda>i. Issue (p # path i) (code i)) (fst r), snd r)"

text \<open>\<^verbatim>\<open>s.split(c)\<close> for a one-character separator.\<close>

fun split_on :: "char \<Rightarrow> string \<Rightarrow> string list" where
  "split_on c [] = [[]]"
| "split_on c (x # xs) =
     (if x = c then [] # split_on c xs
      else (case split_on c xs of [] \<Rightarrow> [[x]] | p # ps \<Rightarrow> (x # p) # ps))"

text \<open>
  The e-mail format of \<^verbatim>\<open>z.string().email()\<close>, the case-insensitive pattern
  \<^verbatim>\<open>^(?!\.)(?!.*\.\.)([A-Z0-9_'+\-\.]*)[A-Z0-9_+-]@([A-Z0-9][A-Z0-9\-]*\.)+[A-Z]{2,}$\<close>:
  a local part that does not start with a dot, has no two dots in a row and ends in a
  character other than a dot or an apostrophe, one \<^verbatim>\<open>@\<close>, one or more domain labels, and a
  top-level domain of at least two letters.
\<close>

definition letter :: "char \<Rightarrow> bool" where
  "letter c = ((CHR ''a'' \<le> c \<and> c \<le> CHR ''z'') \<or> (CHR ''A'' \<le> c \<and> c \<le> CHR ''Z''))"

definition alnum :: "char \<Rightarrow> bool" where
  "alnum c = (letter c \<or> (CHR ''0'' \<le> c \<and> c \<le> CHR ''9''))"

definition local_end :: "char \<Rightarrow> bool" where
  "local_end c = (alnum c \<or> c = CHR ''_'' \<or> c = CHR ''+'' \<or> c = CHR ''-'')"

definition local_char :: "char \<Rightarrow> bool" where
  "local_char c = (local_end c \<or> c = CHR 0x27 \<or> c = CHR ''.'')"

fun has_dotdot :: "string \<Rightarrow> bool" where
  "has_dotdot (a # b # cs) = ((a = CHR ''.'' \<and> b = CHR ''.'') \<or> has_dotdot (b # cs))"
| "has_dotdot cs = False"

definition local_ok :: "string \<Rightarrow> bool" where
  "local_ok l = (case l of [] \<Rightarrow> False
     | c # cs \<Rightarrow> c \<noteq> CHR ''.'' \<and> list_all local_char (butlast l) \<and> local_end (last l))"

definition label_ok :: "string \<Rightarrow> bool" where
  "label_ok l = (case l of [] \<Rightarrow> False
     | c # cs \<Rightarrow> alnum c \<and> list_all (\<lambda>d. alnum d \<or> d = CHR ''-'') cs)"

definition domain_ok :: "string \<Rightarrow> bool" where
  "domain_ok d = (let ps = split_on CHR ''.'' d
     in 2 \<le> length ps \<and> list_all label_ok (butlast ps)
        \<and> 2 \<le> length (last ps) \<and> list_all letter (last ps))"

definition is_email :: "string \<Rightarrow> bool" where
  "is_email s = (case split_on CHR ''@'' s of
       [l, d] \<Rightarrow> \<not> has_dotdot s \<and> local_ok l \<and> domain_ok d
     | _ \<Rightarrow> False)"

text \<open>
  \<^verbatim>\<open>z.string()\<close> with its refinements in the order they are chained: \<^verbatim>\<open>.email()\<close> and
  \<^verbatim>\<open>.nonempty()\<close> (a minimum length of one).
\<close>

datatype string_check = Email | Nonempty

fun check_string :: "string_check \<Rightarrow> string \<Rightarrow> issue list" where
  "check_string Email s = (if is_email s then [] else [Issue [] invalid_string])"
| "check_string Nonempty s = (if s = [] then [Issue [] too_small] else [])"

definition z_string :: "string_check list \<Rightarrow> schema" where
  "z_string checks v = (case v of
       JStr s \<Rightarrow> (concat (map (\<lambda>c. check_string c s) checks), Some v)
     | _ \<Rightarrow> ([Issue [] invalid_type], None))"

definition z_boolean :: schema where
  "z_boolean v = (case v of JBool b \<Rightarrow> ([], Some v) | _ \<Rightarrow> ([Issue [] invalid_type], None))"

definition z_enum :: "string list \<Rightarrow> schema" where
  "z_enum vals v = (case v of
       JStr s \<Rightarrow> if s \<in> set vals then ([], Some v) else ([Issue [] invalid_enum_value], None)
     | _ \<Rightarrow> ([Issue [] invalid_type], None))"

text \<open>\<^verbatim>\<open>.optional()\<close>: \<^verbatim>\<open>undefined\<close> (a missing key) is accepted as it is; \<^verbatim>\<open>null\<close> is not.\<close>

definition z_optional :: "schema \<Rightarrow> schema" where
  "z_optional s v = (if v = JUndefined then ([], Some JUndefined) else s v)"

text \<open>
  \<^verbatim>\<open>z.array(el)\<close>, and \<^verbatim>\<open>z.array(el).max(m)\<close> when a bound is given. The length check adds an
  issue and parsing goes on with the elements.
\<close>

definition z_array :: "schema \<Rightarrow> nat option \<Rightarrow> schema" where
  "z_array el mx v = (case v of
       JArr xs \<Rightarrow>
         (let rs = map (\<lambda>ix. at (Idx (fst ix)) (el (snd ix))) (enumerate 0 xs);
              big = (case mx of None \<Rightarrow> [] | Some m \<Rightarrow> if m < length xs then [Issue [] too_big] else [])
          in (big @ concat (map fst rs), map_option JArr (those (map snd rs))))
     | _ \<Rightarrow> ([Issue [] invalid_type], None))"

text \<open>
  \<^verbatim>\<open>z.object(shape)\<close>: every key of the shape is parsed, a missing key as \<^verbatim>\<open>undefined\<close>. Keys
  of the input that the shape does not name are dropped from the output, and a key of the
  shape appears in the output when the input has it or its parsed value is defined. Issues
  are listed in the order of the shape; the order in which the library reports the issues of
  different keys is not modelled, and the properties below speak only of which issues occur.
\<close>

definition z_object :: "(string \<times> schema) list \<Rightarrow> schema" where
  "z_object shape v = (case v of
       JObj kvs \<Rightarrow>
         (let rs = map (\<lambda>ks. (fst ks, at (Key (fst ks)) (snd ks (get_prop kvs (fst ks))))) shape
          in (concat (map (\<lambda>kr. fst (snd kr)) rs),
              map_option (\<lambda>vals. JObj (filter (\<lambda>kx. has_prop kvs (fst kx) \<or> snd kx \<noteq> JUndefined)
                                          (zip (map fst shape) vals)))
                (those (map (\<lambda>kr. snd (snd kr)) rs))))
     | _ \<Rightarrow> ([Issue [] invalid_type], None))"

text \<open>
  \<^verbatim>\<open>z.record(el)\<close>: an object whose every value satisfies \<open>el\<close>. Every key is kept
  except \<^verbatim>\<open>__proto__\<close>, which the library leaves out of the object it builds.
\<close>

definition z_record :: "schema \<Rightarrow> schema" where
  "z_record el v = (case v of
       JObj kvs \<Rightarrow>
         (let rs = map (\<lambda>kx. at (Key (fst kx)) (el (snd kx))) kvs
          in (concat (map fst rs),
              map_option (\<lambda>vals. JObj (filter (\<lambda>kx. fst kx \<noteq> ''__proto__'')
                                          (zip (map fst kvs) vals)))
                (those (map snd rs))))
     | _ \<Rightarrow> ([Issue [] invalid_type], None))"

text \<open>
  \<^verbatim>\<open>z.union(options)\<close>: the first option with a valid result wins; failing that, the first
  option that produced a value, with its issues; failing that, one \<open>invalid_union\<close> issue.
\<close>

definition z_union :: "schema list \<Rightarrow> schema" where
  "z_union options v =
     (let rs = map (\<lambda>s. s v) options
      in case filter (\<lambda>r. fst r = [] \<and> snd r \<noteq> None) rs of
           r # _ \<Rightarrow> r
         | [] \<Rightarrow> (case filter (\<lambda>r. snd r \<noteq> None) rs of
                    r # _ \<Rightarrow> r
                  | [] \<Rightarrow> ([Issue [] invalid_union], None)))"

text \<open>
  A schema accepts an input with an output when it finds no issue;
  \<^verbatim>\<open>schema.safeParse(v)\<close> succeeds exactly then.
\<close>

definition accepts :: "schema \<Rightarrow> jsval \<Rightarrow> jsval \<Rightarrow> bool" where
  "accepts s v x = (s v = ([], Some x))"

definition safe_parse :: "schema \<Rightarrow> jsval \<Rightarrow> issue list + jsval" where
  "safe_parse s v = (case snd (s v) of
       None \<Rightarrow> Inl (fst (s v))
     | Some x \<Rightarrow> if fst (s v) = [] then Inr x else Inl (fst (s v)))"

section \<open>Startup configuration\<close>

text \<open>
  The values the process reads once at startup: the parsed command line (\<^verbatim>\<open>argv.sender\<close>,
  \<^verbatim>\<open>argv["reply-to"]\<close>, of any JavaScript type) and the environment variables
  \<^verbatim>\<open>SENDER_EMAIL_ADDRESS\<close> and \<^verbatim>\<open>REPLY_TO_EMAIL_ADDRESSES\<close> (a string or unset).
\<close>

record config =
  argv_sender :: jsval
  env_sender :: "string option"
  argv_reply_to :: jsval
  env_reply_to :: "string option"

definition env_value :: "string option \<Rightarrow> jsval" where
  "env_value e = (case e of None \<Rightarrow> JUndefined | Some s \<Rightarrow> JStr s)"

text \<open>\<^verbatim>\<open>const senderEmailAddress = argv.sender || process.env.SENDER_EMAIL_ADDRESS;\<close>\<close>

definition senderEmailAddress :: "config \<Rightarrow> jsval" where
  "senderEmailAddress cfg = js_or (argv_sender cfg) (env_value (env_sender cfg))"

text \<open>
  \<^verbatim>\<open>replierEmailAddresses\<close>: the array given on the command line, or the single string given
  there, or the comma-separated environment variable when it is set and not empty, or
  nothing.
\<close>

definition replierEmailAddresses :: "config \<Rightarrow> jsval list" where
  "replierEmailAddresses cfg = (case argv_reply_to cfg of
       JArr xs \<Rightarrow> xs
     | JStr s \<Rightarrow> [JStr s]
     | _ \<Rightarrow> (case env_reply_to cfg of
              None \<Rightarrow> []
            | Some s \<Rightarrow> if truthy (JStr s) then map JStr (split_on CHR '','' s) else []))"

section \<open>The provider gateway and tool results\<close>

text \<open>
  A call of the provider SDK is named by its method (\<^verbatim>\<open>emails.send\<close> for
  \<^verbatim>\<open>resend.emails.send\<close>) and carries its arguments; the SDK answers with \<^verbatim>\<open>{ data, error }\<close>.
  A handler's outcome records the calls it made, in order, and its result: a thrown error
  or the text of the tool result.
\<close>

record response =
  data :: jsval
  error :: jsval

type_synonym call = "string \<times> jsval list"
type_synonym gateway = "string \<Rightarrow> jsval list \<Rightarrow> response"

datatype thrown =
    Error string
  | TypeError
  | InvalidParams "issue list"
  | ToolNotFound

record outcome =
  calls :: "call list"
  result :: "thrown + jsval"

definition throw :: "thrown \<Rightarrow> outcome" where
  "throw e = \<lparr>calls = [], result = Inl e\<rparr>"

definition return_text :: "jsval \<Rightarrow> outcome" where
  "return_text t = \<lparr>calls = [], result = Inr t\<rparr>"

text \<open>\<^verbatim>\<open>const response = await resend.m(args); ...\<close>: one call, then the rest of the handler.\<close>

definition await :: "gateway \<Rightarrow> string \<Rightarrow> jsval list \<Rightarrow> (response \<Rightarrow> outcome) \<Rightarrow> outcome" where
  "await resend m args k =
     (let r = k (resend m args) in \<lparr>calls = (m, args) # calls r, result = result r\<rparr>)"

text \<open>
  The branch every handler takes on the response:
  \<^verbatim>\<open>if (response.error) { throw new Error(`<msg>: ${JSON.stringify(response.error)}`); }\<close>
\<close>

definition failed :: "string \<Rightarrow> response \<Rightarrow> outcome" where
  "failed msg response = throw (Error (msg @ to_string (JSON_stringify (error response))))"

text \<open>The success text \<^verbatim>\<open>`<msg>${response.data?.id}`\<close> that most handlers return.\<close>

definition with_id :: "string \<Rightarrow> response \<Rightarrow> outcome" where
  "with_id msg response = return_text (JStr (msg @ to_string (opt_member (data response) ''id'')))"

section \<open>Sending e-mail\<close>

subsection \<open>send-email\<close>

text \<open>Recipient fields: \<^verbatim>\<open>z.union([z.string().email(), z.array(z.string().email())])\<close>.\<close>

definition addresses :: schema where
  "addresses = z_union [z_string [Email], z_array (z_string [Email]) None]"

definition tag :: schema where
  "tag = z_object [(''name'', z_string []), (''value'', z_string [])]"

text \<open>
  The parameter schema of send-email. \<^verbatim>\<open>from\<close> is part of it only when no default sender is
  configured, and \<^verbatim>\<open>replyTo\<close> only when no default reply-to address is.
\<close>

definition send_email_shape :: "config \<Rightarrow> (string \<times> schema) list" where
  "send_email_shape cfg =
     [(''to'', addresses),
      (''subject'', z_string []),
      (''text'', z_string []),
      (''html'', z_optional (z_string [])),
      (''cc'', z_optional addresses),
      (''bcc'', z_optional addresses),
      (''scheduledAt'', z_optional (z_string [])),
      (''tags'', z_optional (z_array tag None)),
      (''attachments'', z_optional (z_array (z_object
          [(''filename'', z_string []), (''content'', z_string []),
           (''path'', z_optional (z_string []))]) None)),
      (''headers'', z_optional (z_record (z_string [])))]
     @ (if \<not> truthy (senderEmailAddress cfg) then [(''from'', z_string [Email, Nonempty])] else [])
     @ (if length (replierEmailAddresses cfg) = 0 then [(''replyTo'', z_optional addresses)] else [])"

text \<open>\<^verbatim>\<open>if (v) { emailRequest.k = v; }\<close>\<close>

definition assign_if :: "string \<Rightarrow> jsval \<Rightarrow> props \<Rightarrow> props" where
  "assign_if k v r = (if truthy v then set_prop k v r else r)"

fun array_length :: "jsval \<Rightarrow> nat" where
  "array_length (JArr xs) = length xs"
| "array_length v = 0"

text \<open>
  The request object the handler builds (\<^verbatim>\<open>const emailRequest: any = { to, subject, text,
  from: fromEmailAddress }\<close> and the conditional assignments after it), from the resolved
  sender, the resolved reply-to value and the validated arguments.
\<close>

definition emailRequest :: "jsval \<Rightarrow> jsval \<Rightarrow> props \<Rightarrow> props" where
  "emailRequest fromEmailAddress replyToEmailAddresses a =
     (let r0 = [(''to'', get_prop a ''to''), (''subject'', get_prop a ''subject''),
                (''text'', get_prop a ''text''), (''from'', fromEmailAddress)];
          r1 = (if truthy replyToEmailAddresses
                   \<and> (is_string replyToEmailAddresses
                        \<or> (is_array replyToEmailAddresses \<and> 0 < array_length replyToEmailAddresses))
                then set_prop ''replyTo'' replyToEmailAddresses r0 else r0);
          r2 = assign_if ''html'' (get_prop a ''html'') r1;
          r3 = assign_if ''scheduledAt'' (get_prop a ''scheduledAt'') r2;
          r4 = assign_if ''cc'' (get_prop a ''cc'') r3;
          r5 = assign_if ''bcc'' (get_prop a ''bcc'') r4;
          r6 = assign_if ''tags'' (get_prop a ''tags'') r5;
          r7 = assign_if ''attachments'' (get_prop a ''attachments'') r6
      in assign_if ''headers'' (get_prop a ''headers'') r7)"

definition send_email :: "config \<Rightarrow> gateway \<Rightarrow> props \<Rightarrow> outcome" where
  "send_email cfg resend a =
     (let fromEmailAddress = nullish (get_prop a ''from'') (senderEmailAddress cfg);
          replyToEmailAddresses = nullish (get_prop a ''replyTo'') (JArr (replierEmailAddresses cfg))
      in if \<not> is_string fromEmailAddress then throw (Error ''from argument must be provided.'')
         else await resend ''emails.send''
                [JObj (emailRequest fromEmailAddress replyToEmailAddresses a)]
                (\<lambda>response.
                   if truthy (error response) then failed ''Email failed to send: '' response
                   else with_id ''Email sent successfully! ID: '' response))"

subsection \<open>send-batch-emails\<close>

definition batch_email :: schema where
  "batch_email = z_object
     [(''to'', addresses),
      (''subject'', z_string []),
      (''text'', z_string []),
      (''from'', z_optional (z_string [Email])),
      (''html'', z_optional (z_string [])),
      (''cc'', z_optional addresses),
      (''bcc'', z_optional addresses),
      (''replyTo'', z_optional addresses),
      (''scheduledAt'', z_optional (z_string [])),
      (''tags'', z_optional (z_array tag None)),
      (''attachments'', z_optional (z_array (z_object
          [(''filename'', z_string []), (''content'', z_string [])]) None)),
      (''headers'', z_optional (z_record (z_string [])))]"

definition send_batch_emails_shape :: "(string \<times> schema) list" where
  "send_batch_emails_shape = [(''emails'', z_array batch_email (Some 100))]"

text \<open>
  \<^verbatim>\<open>({ ...email, from: email.from || senderEmailAddress })\<close> for one entry. The schema admits
  only objects as entries; on any other value the model gives no result.
\<close>

fun with_default_from :: "jsval \<Rightarrow> jsval \<Rightarrow> jsval option" where
  "with_default_from sender (JObj email) =
     Some (JObj (set_prop ''from'' (js_or (get_prop email ''from'') sender) email))"
| "with_default_from sender v = None"

text \<open>
  \<^verbatim>\<open>response.data?.data.map(e => e.id).join(', ')\<close>: \<^verbatim>\<open>undefined\<close> when there is no data, a
  type error when \<^verbatim>\<open>data.data\<close> is not an array or has a nullish element.
\<close>

definition batch_ids :: "jsval \<Rightarrow> thrown + jsval" where
  "batch_ids d =
     (if d = JUndefined \<or> d = JNull then Inr JUndefined
      else (case opt_member d ''data'' of
              JArr es \<Rightarrow>
                if list_all (\<lambda>e. e \<noteq> JUndefined \<and> e \<noteq> JNull) es
                then Inr (JStr (join '', '' (map (\<lambda>e. let i = opt_member e ''id''
                                                       in if i = JUndefined \<or> i = JNull then []
                                                          else to_string i) es)))
                else Inl TypeError
            | _ \<Rightarrow> Inl TypeError))"

definition send_batch_emails :: "config \<Rightarrow> gateway \<Rightarrow> props \<Rightarrow> outcome" where
  "send_batch_emails cfg resend a =
     (case get_prop a ''emails'' of
        JArr emails \<Rightarrow>
          (case those (map (with_default_from (senderEmailAddress cfg)) emails) of
             Some batchEmails \<Rightarrow>
               await resend ''batch.send'' [JArr batchEmails]
                 (\<lambda>response.
                    if truthy (error response) then failed ''Batch email failed to send: '' response
                    else (case batch_ids (data response) of
                            Inl e \<Rightarrow> throw e
                          | Inr ids \<Rightarrow> return_text (JStr (''Batch emails sent successfully! IDs: ''
                                                          @ to_string ids))))
           | None \<Rightarrow> throw TypeError)
      | _ \<Rightarrow> throw TypeError)"

section \<open>Managing e-mails, domains and API keys\<close>

text \<open>
  Each handler reads its validated arguments, makes one call and renders the response.
  Success texts are either a confirmation with the identifier or the data printed with
  \<^verbatim>\<open>JSON.stringify(..., null, 2)\<close>.
\<close>

definition get_email :: "gateway \<Rightarrow> props \<Rightarrow> outcome" where
  "get_email resend a =
     await resend ''emails.get'' [get_prop a ''emailId'']
       (\<lambda>response. if truthy (error response) then failed ''Failed to get email: '' response
                    else return_text (JSON_stringify2 (data response)))"

definition update_email :: "gateway \<Rightarrow> props \<Rightarrow> outcome" where
  "update_email resend a =
     await resend ''emails.update''
       [JObj [(''id'', get_prop a ''emailId''), (''scheduledAt'', get_prop a ''scheduledAt'')]]
       (\<lambda>response. if truthy (error response) then failed ''Failed to update email: '' response
                    else with_id ''Email updated successfully! ID: '' response)"

definition cancel_email :: "gateway \<Rightarrow> props \<Rightarrow> outcome" where
  "cancel_email resend a =
     await resend ''emails.cancel'' [get_prop a ''emailId'']
       (\<lambda>response. if truthy (error response) then failed ''Failed to cancel email: '' response
                    else with_id ''Email cancelled successfully! ID: '' response)"

definition create_domain :: "gateway \<Rightarrow> props \<Rightarrow> outcome" where
  "create_domain resend a =
     await resend ''domains.create''
       [JObj [(''name'', get_prop a ''name''), (''region'', get_prop a ''region'')]]
       (\<lambda>response. if truthy (error response) then failed ''Failed to create domain: '' response
                    else return_text (JStr (''Domain created successfully! ID: ''
                           @ to_string (opt_member (data response) ''id'')
                           @ [CHR 0x0A, CHR 0x0A] @ ''DNS Records to configure:'' @ [CHR 0x0A]
                           @ to_string (JSON_stringify2 (opt_member (data response) ''records'')))))"

definition list_domains :: "gateway \<Rightarrow> props \<Rightarrow> outcome" where
  "list_domains resend a =
     await resend ''domains.list'' []
       (\<lambda>response. if truthy (error response) then failed ''Failed to list domains: '' response
                    else return_text (JSON_stringify2 (opt_member (data response) ''data'')))"

definition get_domain :: "gateway \<Rightarrow> props \<Rightarrow> outcome" where
  "get_domain resend a =
     await resend ''domains.get'' [get_prop a ''domainId'']
       (\<lambda>response. if truthy (error response) then failed ''Failed to get domain: '' response
                    else return_text (JSON_stringify2 (data response)))"

text \<open>\<^verbatim>\<open>if (v !== undefined) updateData.k = v;\<close>\<close>

definition assign_defined :: "string \<Rightarrow> jsval \<Rightarrow> props \<Rightarrow> props" where
  "assign_defined k v r = (if v \<noteq> JUndefined then set_prop k v r else r)"

definition update_domain :: "gateway \<Rightarrow> props \<Rightarrow> outcome" where
  "update_domain resend a =
     (let u0 = [(''id'', get_prop a ''domainId'')];
          u1 = assign_defined ''openTracking'' (get_prop a ''openTracking'') u0;
          u2 = assign_defined ''clickTracking'' (get_prop a ''clickTracking'') u1;
          updateData = assign_defined ''tls'' (get_prop a ''tls'') u2
      in await resend ''domains.update'' [JObj updateData]
           (\<lambda>response. if truthy (error response) then failed ''Failed to update domain: '' response
                        else with_id ''Domain updated successfully! ID: '' response))"

definition delete_domain :: "gateway \<Rightarrow> props \<Rightarrow> outcome" where
  "delete_domain resend a =
     await resend ''domains.remove'' [get_prop a ''domainId'']
       (\<lambda>response. if truthy (error response) then failed ''Failed to delete domain: '' response
                    else with_id ''Domain deleted successfully! ID: '' response)"

definition verify_domain :: "gateway \<Rightarrow> props \<Rightarrow> outcome" where
  "verify_domain resend a =
     await resend ''domains.verify'' [get_prop a ''domainId'']
       (\<lambda>response. if truthy (error response) then failed ''Failed to verify domain: '' response
                    else with_id ''Domain verification triggered! ID: '' response)"

definition create_api_key :: "gateway \<Rightarrow> props \<Rightarrow> outcome" where
  "create_api_key resend a =
     await resend ''apiKeys.create''
       [JObj [(''name'', get_prop a ''name''),
              (''permission'', js_or (get_prop a ''permission'') (JStr ''sending_access'')),
              (''domain_id'', get_prop a ''domainId'')]]
       (\<lambda>response. if truthy (error response) then failed ''Failed to create API key: '' response
                    else return_text (JStr (''API key created successfully! ID: ''
                           @ to_string (opt_member (data response) ''id'')
                           @ [CHR 0x0A] @ ''Token: '' @ to_string (opt_member (data response) ''token'')
                           @ [CHR 0x0A, CHR 0x0A] @ ''IMPORTANT: Save this token securely, it won''
                           @ [CHR 0x27] @ ''t be shown again!'')))"

definition list_api_keys :: "gateway \<Rightarrow> props \<Rightarrow> outcome" where
  "list_api_keys resend a =
     await resend ''apiKeys.list'' []
       (\<lambda>response. if truthy (error response) then failed ''Failed to list API keys: '' response
                    else return_text (JSON_stringify2 (data response)))"

definition delete_api_key :: "gateway \<Rightarrow> props \<Rightarrow> outcome" where
  "delete_api_key resend a =
     await resend ''apiKeys.remove'' [get_prop a ''apiKeyId'']
       (\<lambda>response. if truthy (error response) then failed ''Failed to delete API key: '' response
                    else return_text (JStr ''API key deleted successfully!''))"

section \<open>Audiences and contacts\<close>

definition create_audience :: "gateway \<Rightarrow> props \<Rightarrow> outcome" where
  "create_audience resend a =
     await resend ''audiences.create'' [JObj [(''name'', get_prop a ''name'')]]
       (\<lambda>response. if truthy (error response) then failed ''Failed to create audience: '' response
                    else with_id ''Audience created successfully! ID: '' response)"

definition list_audiences :: "gateway \<Rightarrow> props \<Rightarrow> outcome" where
  "list_audiences resend a =
     await resend ''audiences.list'' []
       (\<lambda>response. if truthy (error response) then failed ''Failed to list audiences: '' response
                    else return_text (JSON_stringify2 (opt_member (data response) ''data'')))"

definition get_audience :: "gateway \<Rightarrow> props \<Rightarrow> outcome" where
  "get_audience resend a =
     await resend ''audiences.get'' [get_prop a ''audienceId'']
       (\<lambda>response. if truthy (error response) then failed ''Failed to get audience: '' response
                    else return_text (JSON_stringify2 (data response)))"

definition delete_audience :: "gateway \<Rightarrow> props \<Rightarrow> outcome" where
  "delete_audience resend a =
     await resend ''audiences.remove'' [get_prop a ''audienceId'']
       (\<lambda>response. if truthy (error response) then failed ''Failed to delete audience: '' response
                    else with_id ''Audience deleted successfully! ID: '' response)"

definition create_contact :: "gateway \<Rightarrow> props \<Rightarrow> outcome" where
  "create_contact resend a =
     await resend ''contacts.create''
       [JObj [(''audienceId'', get_prop a ''audienceId''), (''email'', get_prop a ''email''),
              (''firstName'', get_prop a ''firstName''), (''lastName'', get_prop a ''lastName''),
              (''unsubscribed'', get_prop a ''unsubscribed'')]]
       (\<lambda>response. if truthy (error response) then failed ''Failed to create contact: '' response
                    else with_id ''Contact created successfully! ID: '' response)"

definition list_contacts :: "gateway \<Rightarrow> props \<Rightarrow> outcome" where
  "list_contacts resend a =
     await resend ''contacts.list'' [JObj [(''audienceId'', get_prop a ''audienceId'')]]
       (\<lambda>response. if truthy (error response) then failed ''Failed to list contacts: '' response
                    else return_text (JSON_stringify2 (opt_member (data response) ''data'')))"

definition get_contact :: "gateway \<Rightarrow> props \<Rightarrow> outcome" where
  "get_contact resend a =
     await resend ''contacts.get''
       [JObj [(''audienceId'', get_prop a ''audienceId''), (''id'', get_prop a ''contactId'')]]
       (\<lambda>response. if truthy (error response) then failed ''Failed to get contact: '' response
                    else return_text (JSON_stringify2 (data response)))"

text \<open>
  update-contact collects the fields to change under the provider's names and spreads them
  after \<^verbatim>\<open>audienceId\<close> and \<^verbatim>\<open>id\<close>.
\<close>

definition update_contact :: "gateway \<Rightarrow> props \<Rightarrow> outcome" where
  "update_contact resend a =
     (let u1 = assign_defined ''first_name'' (get_prop a ''firstName'') [];
          u2 = assign_defined ''last_name'' (get_prop a ''lastName'') u1;
          updateData = assign_defined ''unsubscribed'' (get_prop a ''unsubscribed'') u2
      in await resend ''contacts.update''
           [JObj (fold (\<lambda>kv. set_prop (fst kv) (snd kv)) updateData
                    [(''audienceId'', get_prop a ''audienceId''), (''id'', get_prop a ''contactId'')])]
           (\<lambda>response. if truthy (error response) then failed ''Failed to update contact: '' response
                        else with_id ''Contact updated successfully! ID: '' response))"

text \<open>delete-contact checks for an identifier before it calls the provider.\<close>

definition delete_contact :: "gateway \<Rightarrow> props \<Rightarrow> outcome" where
  "delete_contact resend a =
     (if \<not> truthy (get_prop a ''contactId'') \<and> \<not> truthy (get_prop a ''email'')
      then throw (Error ''Either contactId or email must be provided'')
      else await resend ''contacts.remove''
             [JObj [(''audienceId'', get_prop a ''audienceId''), (''id'', get_prop a ''contactId''),
                    (''email'', get_prop a ''email'')]]
             (\<lambda>response. if truthy (error response) then failed ''Failed to delete contact: '' response
                          else return_text (JStr ''Contact deleted successfully!'')))"

section \<open>Broadcasts\<close>

text \<open>create-broadcast requires plain text or HTML content before it calls the provider.\<close>

definition create_broadcast :: "gateway \<Rightarrow> props \<Rightarrow> outcome" where
  "create_broadcast resend a =
     (if \<not> truthy (get_prop a ''text'') \<and> \<not> truthy (get_prop a ''html'')
      then throw (Error ''Either text or html content must be provided'')
      else await resend ''broadcasts.create''
             [JObj [(''name'', get_prop a ''name''), (''audienceId'', get_prop a ''audienceId''),
                    (''from'', get_prop a ''from''), (''subject'', get_prop a ''subject''),
                    (''replyTo'', get_prop a ''replyTo''), (''previewText'', get_prop a ''previewText''),
                    (''text'', get_prop a ''text''), (''html'', get_prop a ''html'')]]
             (\<lambda>response. if truthy (error response) then failed ''Failed to create broadcast: '' response
                          else with_id ''Broadcast created successfully! ID: '' response))"

definition list_broadcasts :: "gateway \<Rightarrow> props \<Rightarrow> outcome" where
  "list_broadcasts resend a =
     await resend ''broadcasts.list'' []
       (\<lambda>response. if truthy (error response) then failed ''Failed to list broadcasts: '' response
                    else return_text (JSON_stringify2 (opt_member (data response) ''data'')))"

definition get_broadcast :: "gateway \<Rightarrow> props \<Rightarrow> outcome" where
  "get_broadcast resend a =
     await resend ''broadcasts.get'' [get_prop a ''broadcastId'']
       (\<lambda>response. if truthy (error response) then failed ''Failed to get broadcast: '' response
                    else return_text (JSON_stringify2 (data response)))"

text \<open>
  send-broadcast passes the options object \<^verbatim>\<open>{ scheduledAt }\<close> only for a truthy
  \<^verbatim>\<open>scheduledAt\<close>, and \<^verbatim>\<open>undefined\<close> in its place otherwise.
\<close>

definition send_broadcast :: "gateway \<Rightarrow> props \<Rightarrow> outcome" where
  "send_broadcast resend a =
     await resend ''broadcasts.send''
       [get_prop a ''broadcastId'',
        if truthy (get_prop a ''scheduledAt'')
        then JObj [(''scheduledAt'', get_prop a ''scheduledAt'')] else JUndefined]
       (\<lambda>response. if truthy (error response) then failed ''Failed to send broadcast: '' response
                    else with_id ''Broadcast sent successfully! ID: '' response)"

definition delete_broadcast :: "gateway \<Rightarrow> props \<Rightarrow> outcome" where
  "delete_broadcast resend a =
     await resend ''broadcasts.remove'' [get_prop a ''broadcastId'']
       (\<lambda>response. if truthy (error response) then failed ''Failed to delete broadcast: '' response
                    else with_id ''Broadcast deleted successfully! ID: '' response)"

section \<open>The tool registry\<close>

text \<open>
  \<^verbatim>\<open>server.tool(name, description, shape, handler)\<close> registers a tool. The registry lists the
  tools in the order of the source, each with its parameter shape and its handler.
\<close>

type_synonym tool = "string \<times> (string \<times> schema) list \<times> (gateway \<Rightarrow> props \<Rightarrow> outcome)"

definition tools :: "config \<Rightarrow> tool list" where
  "tools cfg =
     [(''send-email'', send_email_shape cfg, send_email cfg),
      (''send-batch-emails'', send_batch_emails_shape, send_batch_emails cfg),
      (''get-email'', [(''emailId'', z_string [])], get_email),
      (''update-email'', [(''emailId'', z_string []), (''scheduledAt'', z_string [])], update_email),
      (''cancel-email'', [(''emailId'', z_string [])], cancel_email),
      (''create-domain'',
         [(''name'', z_string []),
          (''region'', z_optional (z_enum [''us-east-1'', ''eu-west-1'', ''sa-east-1'']))],
         create_domain),
      (''list-domains'', [], list_domains),
      (''get-domain'', [(''domainId'', z_string [])], get_domain),
      (''update-domain'',
         [(''domainId'', z_string []), (''openTracking'', z_optional z_boolean),
          (''clickTracking'', z_optional z_boolean),
          (''tls'', z_optional (z_enum [''enforced'', ''opportunistic'']))],
         update_domain),
      (''delete-domain'', [(''domainId'', z_string [])], delete_domain),
      (''verify-domain'', [(''domainId'', z_string [])], verify_domain),
      (''create-api-key'',
         [(''name'', z_string []),
          (''permission'', z_optional (z_enum [''full_access'', ''sending_access''])),
          (''domainId'', z_optional (z_string []))],
         create_api_key),
      (''list-api-keys'', [], list_api_keys),
      (''delete-api-key'', [(''apiKeyId'', z_string [])], delete_api_key),
      (''create-audience'', [(''name'', z_string [])], create_audience),
      (''list-audiences'', [], list_audiences),
      (''get-audience'', [(''audienceId'', z_string [])], get_audience),
      (''delete-audience'', [(''audienceId'', z_string [])], delete_audience),
      (''create-contact'',
         [(''audienceId'', z_string []), (''email'', z_string [Email]),
          (''firstName'', z_optional (z_string [])), (''lastName'', z_optional (z_string [])),
          (''unsubscribed'', z_optional z_boolean)],
         create_contact),
      (''list-contacts'', [(''audienceId'', z_string [])], list_contacts),
      (''get-contact'', [(''audienceId'', z_string []), (''contactId'', z_string [])], get_contact),
      (''update-contact'',
         [(''audienceId'', z_string []), (''contactId'', z_string []),
          (''firstName'', z_optional (z_string [])), (''lastName'', z_optional (z_string [])),
          (''unsubscribed'', z_optional z_boolean)],
         update_contact),
      (''delete-contact'',
         [(''audienceId'', z_string []), (''contactId'', z_optional (z_string [])),
          (''email'', z_optional (z_string [Email]))],
         delete_contact),
      (''create-broadcast'',
         [(''name'', z_string []), (''audienceId'', z_string []), (''from'', z_string [Email]),
          (''subject'', z_string []), (''replyTo'', z_optional addresses),
          (''previewText'', z_optional (z_string [])), (''text'', z_optional (z_string [])),
          (''html'', z_optional (z_string []))],
         create_broadcast),
      (''list-broadcasts'', [], list_broadcasts),
      (''get-broadcast'', [(''broadcastId'', z_string [])], get_broadcast),
      (''send-broadcast'',
         [(''broadcastId'', z_string []), (''scheduledAt'', z_optional (z_string []))],
         send_broadcast),
      (''delete-broadcast'', [(''broadcastId'', z_string [])], delete_broadcast)]"

text \<open>
  A tool invocation, as the protocol server runs it: look the tool up by name, parse the raw
  arguments with the object schema of its shape, and run the handler on the parsed
  arguments. A parse failure is answered without running the handler.
\<close>

definition call_tool :: "config \<Rightarrow> gateway \<Rightarrow> string \<Rightarrow> jsval \<Rightarrow> outcome" where
  "call_tool cfg resend name raw =
     (case map_of (tools cfg) name of
        None \<Rightarrow> throw ToolNotFound
      | Some (shape, handler) \<Rightarrow>
          (case safe_parse (z_object shape) raw of
             Inl issues \<Rightarrow> throw (InvalidParams issues)
           | Inr (JObj a) \<Rightarrow> handler resend a
           | Inr _ \<Rightarrow> throw TypeError))"

text \<open>The requests a tool invocation passed to the provider, and a gateway that always succeeds.\<close>

definition requests :: "outcome \<Rightarrow> jsval list" where
  "requests out = concat (map snd (calls out))"

definition accepting :: gateway where
  "accepting m args =
     \<lparr>data = JObj [(''id'', JStr ''em_1''), (''data'', JArr [JObj [(''id'', JStr ''em_1'')]])],
      error = JNull\<rparr>"

definition rejecting :: "jsval \<Rightarrow> gateway" where
  "rejecting e m args = \<lparr>data = JNull, error = e\<rparr>"

text \<open>
  Two startup configurations, without and with default addresses, and the arguments of the
  smallest send-email invocation.
\<close>

definition no_defaults :: config where
  "no_defaults = \<lparr>argv_sender = JUndefined, env_sender = None,
                   argv_reply_to = JUndefined, env_reply_to = None\<rparr>"

definition with_defaults :: config where
  "with_defaults = \<lparr>argv_sender = JStr ''d@x.com'', env_sender = None,
                     argv_reply_to = JStr ''r@x.com'', env_reply_to = None\<rparr>"

definition minimal_email :: props where
  "minimal_email = [(''to'', JStr ''a@x.com''), (''subject'', JStr ''Hi''), (''text'', JStr ''Body'')]"

section \<open>Properties of values and schemas\<close>

subsection \<open>Objects\<close>

lemma get_prop_Nil [simp]: "get_prop [] k = JUndefined"
  by (simp add: get_prop_def)

lemma get_prop_Cons [simp]: "get_prop ((k, v) # kvs) k' = (if k = k' then v else get_prop kvs k')"
  by (simp add: get_prop_def)

lemma has_prop_Nil [simp]: "\<not> has_prop [] k"
  by (simp add: has_prop_def)

lemma has_prop_Cons [simp]: "has_prop ((k, v) # kvs) k' = (k = k' \<or> has_prop kvs k')"
  by (auto simp add: has_prop_def)

lemma get_prop_set_prop [simp]:
  "get_prop (set_prop k v r) k' = (if k' = k then v else get_prop r k')"
  by (simp add: get_prop_def set_prop_def update_conv')

lemma has_prop_set_prop [simp]: "has_prop (set_prop k v r) k' = (k' = k \<or> has_prop r k')"
  by (simp add: has_prop_def set_prop_def update_conv')

lemma get_prop_absent: "\<not> has_prop r k \<Longrightarrow> get_prop r k = JUndefined"
  by (simp add: has_prop_def get_prop_def)

lemma those_map:
  "those (map g xs) = (if \<forall>x\<in>set xs. g x \<noteq> None then Some (map (\<lambda>x. the (g x)) xs) else None)"
  by (induction xs) (auto split: option.splits)

lemma zip_map_fst: "zip (map fst xs) (map f xs) = map (\<lambda>x. (fst x, f x)) xs"
  by (induction xs) auto

lemma fst_at_Nil [simp]: "fst (at p r) = [] \<longleftrightarrow> fst r = []"
  by (simp add: at_def)

lemma snd_at [simp]: "snd (at p r) = snd r"
  by (simp add: at_def)

lemma safe_parse_Inr: "safe_parse s v = Inr x \<longleftrightarrow> accepts s v x"
  by (cases "s v") (auto simp add: safe_parse_def accepts_def split: option.splits)


lemma map_of_filter_map_None:
  "k \<notin> fst ` set sh \<Longrightarrow> map_of (filter P (map (\<lambda>ks. (fst ks, f ks)) sh)) k = None"
  by (induction sh) auto

lemma map_of_filter_map:
  "distinct (map fst sh) \<Longrightarrow> ks \<in> set sh \<Longrightarrow>
   map_of (filter P (map (\<lambda>ks. (fst ks, f ks)) sh)) (fst ks)
     = (if P (fst ks, f ks) then Some (f ks) else None)"
proof (induction sh)
  case Nil
  then show ?case by simp
next
  case (Cons x sh)
  show ?case
  proof (cases "ks = x")
    case True
    with Cons.prems have "fst x \<notin> fst ` set sh" by auto
    then show ?thesis using True by (simp add: map_of_filter_map_None)
  next
    case False
    with Cons.prems have in_sh: "ks \<in> set sh" by simp
    from Cons.prems have "fst x \<notin> fst ` set sh" by simp
    with in_sh have "fst ks \<noteq> fst x" by (metis imageI)
    with Cons in_sh show ?thesis by simp
  qed
qed

lemma z_object_JObj:
  "z_object shape (JObj kvs) =
     (concat (map (\<lambda>ks. fst (at (Key (fst ks)) (snd ks (get_prop kvs (fst ks))))) shape),
      if \<forall>ks\<in>set shape. snd (snd ks (get_prop kvs (fst ks))) \<noteq> None
      then Some (JObj (filter (\<lambda>kx. has_prop kvs (fst kx) \<or> snd kx \<noteq> JUndefined)
                  (map (\<lambda>ks. (fst ks, the (snd (snd ks (get_prop kvs (fst ks)))))) shape)))
      else None)"
  by (simp add: z_object_def Let_def comp_def those_map zip_map_fst)

lemma z_object_not_JObj: "\<not> (\<exists>kvs. raw = JObj kvs) \<Longrightarrow> snd (z_object shape raw) = None"
  by (cases raw) (auto simp add: z_object_def)

lemma accepts_z_object:
  assumes "accepts (z_object shape) raw v" and "distinct (map fst shape)"
  shows "\<exists>kvs a. raw = JObj kvs \<and> v = JObj a
           \<and> (\<forall>ks\<in>set shape. accepts (snd ks) (get_prop kvs (fst ks)) (get_prop a (fst ks)))
           \<and> (\<forall>k. k \<notin> fst ` set shape \<longrightarrow> \<not> has_prop a k)
           \<and> (\<forall>k. has_prop a k \<longrightarrow> has_prop kvs k \<or> get_prop a k \<noteq> JUndefined)"
proof -
  from assms(1) obtain kvs where raw: "raw = JObj kvs"
    using z_object_not_JObj [of raw shape] by (auto simp add: accepts_def)
  let ?r = "\<lambda>ks. snd ks (get_prop kvs (fst ks))"
  let ?keep = "\<lambda>kx. has_prop kvs (fst kx) \<or> snd kx \<noteq> JUndefined"
  let ?a = "filter ?keep (map (\<lambda>ks. (fst ks, the (snd (?r ks)))) shape)"
  from assms(1) have ok: "\<forall>ks\<in>set shape. snd (?r ks) \<noteq> None"
    and v: "v = JObj ?a"
    and noissue: "\<forall>ks\<in>set shape. fst (?r ks) = []"
    unfolding accepts_def raw z_object_JObj by (auto split: if_splits)
  have m: "map_of ?a (fst ks) = (if ?keep (fst ks, the (snd (?r ks))) then Some (the (snd (?r ks))) else None)"
    if "ks \<in> set shape" for ks
    using map_of_filter_map [OF assms(2) that, of ?keep "\<lambda>ks. the (snd (?r ks))"] by simp
  have 1: "accepts (snd ks) (get_prop kvs (fst ks)) (get_prop ?a (fst ks))" if "ks \<in> set shape" for ks
  proof -
    from ok that obtain x where x: "snd (?r ks) = Some x" by auto
    from noissue that have f: "fst (?r ks) = []" by auto
    have "get_prop ?a (fst ks) = x" using m [OF that] x by (auto simp add: get_prop_def)
    with x f show ?thesis by (simp add: accepts_def prod_eq_iff)
  qed
  have 2: "\<not> has_prop ?a k" if "k \<notin> fst ` set shape" for k
    using map_of_filter_map_None [OF that] by (simp add: has_prop_def)
  have 3: "has_prop kvs k \<or> get_prop ?a k \<noteq> JUndefined" if "has_prop ?a k" for k
  proof -
    from that 2 have "k \<in> fst ` set shape" by blast
    then obtain ks where ks: "ks \<in> set shape" "k = fst ks" by auto
    with that m [OF ks(1)] show ?thesis by (auto simp add: has_prop_def get_prop_def split: if_splits)
  qed
  from raw v 1 2 3 show ?thesis by blast
qed

lemma z_object_acceptsI:
  assumes "\<forall>ks\<in>set shape. \<exists>x. accepts (snd ks) (get_prop kvs (fst ks)) x"
  shows "\<exists>a. accepts (z_object shape) (JObj kvs) (JObj a)"
proof -
  from assms have "\<forall>ks\<in>set shape. fst (snd ks (get_prop kvs (fst ks))) = []"
    and "\<forall>ks\<in>set shape. snd (snd ks (get_prop kvs (fst ks))) \<noteq> None"
    by (auto simp add: accepts_def)
  then show ?thesis by (simp add: accepts_def z_object_JObj)
qed


lemma accepts_z_string:
  "accepts (z_string cs) v x \<longleftrightarrow> x = v \<and> (\<exists>s. v = JStr s \<and> (\<forall>c\<in>set cs. check_string c s = []))"
  by (cases v) (auto simp add: accepts_def z_string_def)

lemma accepts_z_optional:
  "accepts (z_optional s) v x \<longleftrightarrow> (if v = JUndefined then x = JUndefined else accepts s v x)"
  by (auto simp add: accepts_def z_optional_def)

lemma accepts_z_union2:
  "accepts (z_union [s, t]) v x \<longleftrightarrow> accepts s v x \<or> ((fst (s v) \<noteq> [] \<or> snd (s v) = None) \<and> accepts t v x)"
  by (cases "s v"; cases "t v") (auto simp add: accepts_def z_union_def)

lemma not_is_email_Nil [simp]: "\<not> is_email []"
  by (simp add: is_email_def)

lemma enumerate_map_snd: "map (\<lambda>ix. g (snd ix)) (enumerate n xs) = map g xs"
  by (induction xs arbitrary: n) auto

lemma z_array_JArr:
  "z_array el mx (JArr xs) =
     ((case mx of None \<Rightarrow> [] | Some m \<Rightarrow> if m < length xs then [Issue [] too_big] else [])
        @ concat (map (\<lambda>ix. fst (at (Idx (fst ix)) (el (snd ix)))) (enumerate 0 xs)),
      map_option JArr (those (map (\<lambda>x. snd (el x)) xs)))"
  using enumerate_map_snd [of "\<lambda>x. snd (el x)" 0 xs]
  by (simp add: z_array_def Let_def comp_def)

lemma issues_Nil:
  "concat (map (\<lambda>ix. fst (at (Idx (fst ix)) (el (snd ix)))) (enumerate n xs)) = []
     \<longleftrightarrow> (\<forall>x\<in>set xs. fst (el x) = [])"
  by (induction xs arbitrary: n) auto

lemma fst_z_array_Nil:
  "fst (z_array el mx (JArr xs)) = []
     \<longleftrightarrow> (\<forall>m. mx = Some m \<longrightarrow> length xs \<le> m) \<and> (\<forall>x\<in>set xs. fst (el x) = [])"
proof -
  have "fst (z_array el mx (JArr xs)) = []
     \<longleftrightarrow> (case mx of None \<Rightarrow> [] | Some m \<Rightarrow> if m < length xs then [Issue [] too_big] else []) = []
          \<and> (\<forall>x\<in>set xs. fst (el x) = [])"
    unfolding z_array_JArr by (simp only: fst_conv append_is_Nil_conv issues_Nil)
  then show ?thesis by (cases mx) auto
qed

lemma snd_z_array:
  "snd (z_array el mx (JArr xs)) =
     (if \<forall>x\<in>set xs. snd (el x) \<noteq> None then Some (JArr (map (\<lambda>e. the (snd (el e))) xs)) else None)"
  unfolding z_array_JArr those_map by simp

lemma accepts_iff: "accepts s v x \<longleftrightarrow> fst (s v) = [] \<and> snd (s v) = Some x"
  by (cases "s v") (simp add: accepts_def)

lemma accepts_z_array:
  "accepts (z_array el mx) v x \<longleftrightarrow>
     (\<exists>xs. v = JArr xs \<and> (\<forall>m. mx = Some m \<longrightarrow> length xs \<le> m)
        \<and> (\<forall>e\<in>set xs. fst (el e) = [] \<and> snd (el e) \<noteq> None)
        \<and> x = JArr (map (\<lambda>e. the (snd (el e))) xs))"
proof (cases v)
  case (JArr xs)
  show ?thesis
    unfolding JArr accepts_iff fst_z_array_Nil snd_z_array by auto
qed (auto simp add: accepts_def z_array_def)

lemma accepts_id_array:
  assumes "\<And>e y. accepts el e y \<Longrightarrow> y = e"
  shows "accepts (z_array el mx) v x \<Longrightarrow> x = v"
proof -
  assume a: "accepts (z_array el mx) v x"
  then obtain xs where v: "v = JArr xs" and ok: "\<forall>e\<in>set xs. fst (el e) = [] \<and> snd (el e) \<noteq> None"
    and x: "x = JArr (map (\<lambda>e. the (snd (el e))) xs)"
    unfolding accepts_z_array by blast
  have "the (snd (el e)) = e" if "e \<in> set xs" for e
  proof -
    from ok that obtain y where "el e = ([], Some y)" by (cases "el e") auto
    with assms [of e y] show ?thesis by (simp add: accepts_def)
  qed
  then have "map (\<lambda>e. the (snd (el e))) xs = xs" by (simp add: map_idI)
  with v x show ?thesis by simp
qed

lemma accepts_addresses:
  assumes "accepts addresses v x"
  shows "x = v \<and> ((\<exists>s. v = JStr s \<and> is_email s)
                 \<or> (\<exists>xs. v = JArr xs \<and> (\<forall>e\<in>set xs. \<exists>s. e = JStr s \<and> is_email s)))"
proof -
  from assms consider (str) "accepts (z_string [Email]) v x"
    | (arr) "accepts (z_array (z_string [Email]) None) v x"
    unfolding addresses_def accepts_z_union2 by blast
  then show ?thesis
  proof cases
    case str
    then show ?thesis by (auto simp add: accepts_z_string split: if_splits)
  next
    case arr
    have id: "\<And>e y. accepts (z_string [Email]) e y \<Longrightarrow> y = e"
      by (simp add: accepts_z_string)
    from accepts_id_array [OF id arr] have "x = v" .
    moreover from arr obtain xs where "v = JArr xs"
      and "\<forall>e\<in>set xs. fst (z_string [Email] e) = [] \<and> snd (z_string [Email] e) \<noteq> None"
      unfolding accepts_z_array by blast
    moreover have "\<exists>s. e = JStr s \<and> is_email s"
      if "fst (z_string [Email] e) = [] \<and> snd (z_string [Email] e) \<noteq> None" for e
      using that by (cases e) (auto simp add: z_string_def split: if_splits)
    ultimately show ?thesis by blast
  qed
qed

subsection \<open>Outcomes and dispatch\<close>

lemma calls_throw [simp]: "calls (throw e) = []"
  by (simp add: throw_def)

lemma result_throw [simp]: "result (throw e) = Inl e"
  by (simp add: throw_def)

lemma calls_return_text [simp]: "calls (return_text t) = []"
  by (simp add: return_text_def)

lemma result_return_text [simp]: "result (return_text t) = Inr t"
  by (simp add: return_text_def)

lemma calls_await [simp]: "calls (await resend m args k) = (m, args) # calls (k (resend m args))"
  by (simp add: await_def Let_def)

lemma result_await [simp]: "result (await resend m args k) = result (k (resend m args))"
  by (simp add: await_def Let_def)

lemma calls_failed [simp]: "calls (failed msg response) = []"
  by (simp add: failed_def)

lemma result_failed [simp]:
  "result (failed msg response) = Inl (Error (msg @ to_string (JSON_stringify (error response))))"
  by (simp add: failed_def)

lemma calls_with_id [simp]: "calls (with_id msg response) = []"
  by (simp add: with_id_def)

lemma result_with_id [simp]:
  "result (with_id msg response) = Inr (JStr (msg @ to_string (opt_member (data response) ''id'')))"
  by (simp add: with_id_def)

text \<open>
  An invocation either fails validation without reaching the handler, or runs the handler
  on an object that the tool's schema accepted.
\<close>

lemma accepts_z_object_JObj:
  assumes "accepts (z_object shape) raw v"
  obtains kvs a where "raw = JObj kvs" "v = JObj a"
proof -
  from assms obtain kvs where raw: "raw = JObj kvs"
    using z_object_not_JObj [of raw shape] by (auto simp add: accepts_def)
  with assms obtain a where "v = JObj a"
    unfolding accepts_def raw z_object_JObj by (auto split: if_splits)
  with raw that show ?thesis by blast
qed

lemma call_tool_cases:
  assumes "map_of (tools cfg) name = Some (shape, handler)"
  obtains (invalid) issues where "safe_parse (z_object shape) raw = Inl issues"
      "call_tool cfg resend name raw = throw (InvalidParams issues)"
    | (valid) a where "accepts (z_object shape) raw (JObj a)"
      "call_tool cfg resend name raw = handler resend a"
proof (cases "safe_parse (z_object shape) raw")
  case (Inl issues)
  with assms invalid show ?thesis by (simp add: call_tool_def)
next
  case (Inr v)
  then have acc: "accepts (z_object shape) raw v" by (simp add: safe_parse_Inr)
  then obtain a where v: "v = JObj a" by (rule accepts_z_object_JObj)
  from Inr v assms have "call_tool cfg resend name raw = handler resend a"
    by (simp add: call_tool_def)
  with acc v valid show ?thesis by blast
qed

lemma is_string_iff: "is_string v \<longleftrightarrow> (\<exists>s. v = JStr s)"
  by (cases v) auto

subsection \<open>The send-email schema and request\<close>

lemma tool_send_email:
  "map_of (tools cfg) ''send-email'' = Some (send_email_shape cfg, send_email cfg)"
  by (simp add: tools_def)

lemma distinct_send_email_shape: "distinct (map fst (send_email_shape cfg))"
  by (simp add: send_email_shape_def)

lemma accepts_optional_string:
  "accepts (z_optional (z_string cs)) v x \<Longrightarrow> x = v"
  by (auto simp add: accepts_z_optional accepts_z_string split: if_splits)

lemma accepts_optional_addresses:
  "accepts (z_optional addresses) v x \<Longrightarrow> x = v"
  by (auto simp add: accepts_z_optional dest: accepts_addresses split: if_splits)

lemma accepts_optional_undefined:
  "accepts (z_optional s) JUndefined x \<Longrightarrow> x = JUndefined"
  by (simp add: accepts_z_optional)

text \<open>What validation guarantees about the arguments the send-email handler receives.\<close>

lemma send_email_args:
  assumes "accepts (z_object (send_email_shape cfg)) (JObj kvs) (JObj a)"
  shows "\<And>k. k \<in> {''html'', ''scheduledAt'', ''cc'', ''bcc'', ''tags'', ''attachments'', ''headers''} \<Longrightarrow>
          get_prop kvs k = JUndefined \<Longrightarrow> get_prop a k = JUndefined"
    and "\<And>k. k \<in> {''to'', ''subject'', ''text'', ''html'', ''scheduledAt'', ''cc'', ''bcc''} \<Longrightarrow>
          get_prop a k = get_prop kvs k"
    and "\<And>k. k \<in> {''to'', ''subject'', ''text''} \<Longrightarrow> get_prop kvs k \<noteq> JUndefined"
    and "accepts (z_optional addresses) (get_prop kvs ''cc'') (get_prop a ''cc'')"
    and "accepts (z_optional addresses) (get_prop kvs ''bcc'') (get_prop a ''bcc'')"
    and "truthy (senderEmailAddress cfg) \<Longrightarrow> get_prop a ''from'' = JUndefined"
    and "\<not> truthy (senderEmailAddress cfg) \<Longrightarrow>
          get_prop a ''from'' = get_prop kvs ''from'' \<and> (\<exists>s. get_prop kvs ''from'' = JStr s \<and> is_email s)"
    and "replierEmailAddresses cfg = [] \<Longrightarrow>
          get_prop a ''replyTo'' = get_prop kvs ''replyTo''
          \<and> accepts (z_optional addresses) (get_prop kvs ''replyTo'') (get_prop a ''replyTo'')"
    and "replierEmailAddresses cfg \<noteq> [] \<Longrightarrow> get_prop a ''replyTo'' = JUndefined"
proof -
  from accepts_z_object [OF assms distinct_send_email_shape]
  have fields: "\<forall>ks\<in>set (send_email_shape cfg). accepts (snd ks) (get_prop kvs (fst ks)) (get_prop a (fst ks))"
    and others: "\<forall>k. k \<notin> fst ` set (send_email_shape cfg) \<longrightarrow> \<not> has_prop a k"
    by auto
  from fields have
    "accepts addresses (get_prop kvs ''to'') (get_prop a ''to'')"
    "accepts (z_string []) (get_prop kvs ''subject'') (get_prop a ''subject'')"
    "accepts (z_string []) (get_prop kvs ''text'') (get_prop a ''text'')"
    "accepts (z_optional (z_string [])) (get_prop kvs ''html'') (get_prop a ''html'')"
    "accepts (z_optional addresses) (get_prop kvs ''cc'') (get_prop a ''cc'')"
    "accepts (z_optional addresses) (get_prop kvs ''bcc'') (get_prop a ''bcc'')"
    "accepts (z_optional (z_string [])) (get_prop kvs ''scheduledAt'') (get_prop a ''scheduledAt'')"
    "accepts (z_optional (z_array tag None)) (get_prop kvs ''tags'') (get_prop a ''tags'')"
    "accepts (z_optional (z_array (z_object
          [(''filename'', z_string []), (''content'', z_string []),
           (''path'', z_optional (z_string []))]) None))
       (get_prop kvs ''attachments'') (get_prop a ''attachments'')"
    "accepts (z_optional (z_record (z_string []))) (get_prop kvs ''headers'') (get_prop a ''headers'')"
    by (simp_all add: send_email_shape_def)
  note f = this
  show "get_prop a k = JUndefined"
    if "k \<in> {''html'', ''scheduledAt'', ''cc'', ''bcc'', ''tags'', ''attachments'', ''headers''}"
      and "get_prop kvs k = JUndefined" for k
    using that f(4-10) by (elim insertE emptyE) (simp_all add: accepts_z_optional)
  show "get_prop a k = get_prop kvs k"
    if "k \<in> {''to'', ''subject'', ''text'', ''html'', ''scheduledAt'', ''cc'', ''bcc''}" for k
    using that f(2-7) accepts_addresses [OF f(1)]
      accepts_optional_string [of "[]" "get_prop kvs ''html''" "get_prop a ''html''"]
      accepts_optional_string [of "[]" "get_prop kvs ''scheduledAt''" "get_prop a ''scheduledAt''"]
      accepts_optional_addresses [of "get_prop kvs ''cc''" "get_prop a ''cc''"]
      accepts_optional_addresses [of "get_prop kvs ''bcc''" "get_prop a ''bcc''"]
    by (elim insertE emptyE) (simp_all add: accepts_z_string)
  show "get_prop kvs k \<noteq> JUndefined" if "k \<in> {''to'', ''subject'', ''text''}" for k
    using that f(2,3) accepts_addresses [OF f(1)]
    by (elim insertE emptyE) (auto simp add: accepts_z_string)
  show "accepts (z_optional addresses) (get_prop kvs ''cc'') (get_prop a ''cc'')"
    by (rule f(5))
  show "accepts (z_optional addresses) (get_prop kvs ''bcc'') (get_prop a ''bcc'')"
    by (rule f(6))
  show "get_prop a ''from'' = JUndefined" if "truthy (senderEmailAddress cfg)"
  proof -
    from that have "''from'' \<notin> fst ` set (send_email_shape cfg)"
      by (cases "replierEmailAddresses cfg = []") (simp_all add: send_email_shape_def)
    with others show ?thesis by (simp add: get_prop_absent)
  qed
  show "get_prop a ''from'' = get_prop kvs ''from'' \<and> (\<exists>s. get_prop kvs ''from'' = JStr s \<and> is_email s)"
    if "\<not> truthy (senderEmailAddress cfg)"
  proof -
    from that fields
    have "accepts (z_string [Email, Nonempty]) (get_prop kvs ''from'') (get_prop a ''from'')"
      by (simp add: send_email_shape_def)
    then show ?thesis by (auto simp add: accepts_z_string split: if_splits)
  qed
  show "get_prop a ''replyTo'' = get_prop kvs ''replyTo''
          \<and> accepts (z_optional addresses) (get_prop kvs ''replyTo'') (get_prop a ''replyTo'')"
    if "replierEmailAddresses cfg = []"
  proof -
    from that fields
    have "accepts (z_optional addresses) (get_prop kvs ''replyTo'') (get_prop a ''replyTo'')"
      by (simp add: send_email_shape_def)
    then show ?thesis by (auto dest: accepts_optional_addresses)
  qed
  show "get_prop a ''replyTo'' = JUndefined" if "replierEmailAddresses cfg \<noteq> []"
  proof -
    from that have "''replyTo'' \<notin> fst ` set (send_email_shape cfg)"
      by (cases "truthy (senderEmailAddress cfg)") (simp_all add: send_email_shape_def)
    with others show ?thesis by (simp add: get_prop_absent)
  qed
qed

lemma get_prop_assign_if [simp]:
  "get_prop (assign_if k v r) k' = (if k' = k \<and> truthy v then v else get_prop r k')"
  by (simp add: assign_if_def)

lemma emailRequest_unfold: "c = (truthy r \<and> (is_string r \<or> (is_array r \<and> 0 < array_length r))) \<Longrightarrow> emailRequest f r a =
     assign_if ''headers'' (get_prop a ''headers'')
      (assign_if ''attachments'' (get_prop a ''attachments'')
       (assign_if ''tags'' (get_prop a ''tags'')
        (assign_if ''bcc'' (get_prop a ''bcc'')
         (assign_if ''cc'' (get_prop a ''cc'')
          (assign_if ''scheduledAt'' (get_prop a ''scheduledAt'')
           (assign_if ''html'' (get_prop a ''html'')
            (if c then set_prop ''replyTo'' r
                         [(''to'', get_prop a ''to''), (''subject'', get_prop a ''subject''),
                          (''text'', get_prop a ''text''), (''from'', f)]
             else [(''to'', get_prop a ''to''), (''subject'', get_prop a ''subject''),
                   (''text'', get_prop a ''text''), (''from'', f)])))))))"
  unfolding emailRequest_def Let_def by (simp only:)


lemma get_prop_emailRequest_from: "get_prop (emailRequest f r a) ''from'' = f"
  unfolding emailRequest_unfold [OF refl] by (simp split: if_splits)


lemma has_prop_assign_if [simp]:
  "has_prop (assign_if k v r) k' \<longleftrightarrow> (k' = k \<and> truthy v) \<or> has_prop r k'"
  by (simp add: assign_if_def)



lemma emailRequest_keys:
  "has_prop (emailRequest f r a) k \<Longrightarrow>
     k \<in> {''to'', ''subject'', ''text'', ''from'', ''replyTo'', ''html'', ''scheduledAt'', ''cc'',
          ''bcc'', ''tags'', ''attachments'', ''headers''}"
  unfolding emailRequest_unfold [OF refl] by (auto split: if_splits)

lemma has_prop_emailRequest:
  "has_prop (emailRequest f r a) ''replyTo''
     \<longleftrightarrow> truthy r \<and> (is_string r \<or> (is_array r \<and> 0 < array_length r))"
  "has_prop (emailRequest f r a) ''html'' \<longleftrightarrow> truthy (get_prop a ''html'')"
  "has_prop (emailRequest f r a) ''scheduledAt'' \<longleftrightarrow> truthy (get_prop a ''scheduledAt'')"
  "has_prop (emailRequest f r a) ''cc'' \<longleftrightarrow> truthy (get_prop a ''cc'')"
  "has_prop (emailRequest f r a) ''bcc'' \<longleftrightarrow> truthy (get_prop a ''bcc'')"
  "has_prop (emailRequest f r a) ''tags'' \<longleftrightarrow> truthy (get_prop a ''tags'')"
  "has_prop (emailRequest f r a) ''attachments'' \<longleftrightarrow> truthy (get_prop a ''attachments'')"
  "has_prop (emailRequest f r a) ''headers'' \<longleftrightarrow> truthy (get_prop a ''headers'')"
  unfolding emailRequest_unfold [OF refl] by (simp_all split: if_splits)

lemma get_prop_emailRequest_replyTo:
  "get_prop (emailRequest f r a) ''replyTo''
     = (if truthy r \<and> (is_string r \<or> (is_array r \<and> 0 < array_length r)) then r else JUndefined)"
  unfolding emailRequest_unfold [OF refl] by (auto split: if_splits)


lemma requests_throw [simp]: "requests (throw e) = []"
  by (simp add: requests_def)

lemma requests_send_email:
  "requests (send_email cfg resend a) =
     (if is_string (nullish (get_prop a ''from'') (senderEmailAddress cfg))
      then [JObj (emailRequest (nullish (get_prop a ''from'') (senderEmailAddress cfg))
                    (nullish (get_prop a ''replyTo'') (JArr (replierEmailAddresses cfg))) a)]
      else [])"
  by (simp add: requests_def send_email_def Let_def)

section \<open>Claims\<close>

subsection \<open>Identifier check of delete-contact\<close>

lemma tool_delete_contact:
  "map_of (tools cfg) ''delete-contact'' =
     Some ([(''audienceId'', z_string []), (''contactId'', z_optional (z_string [])),
            (''email'', z_optional (z_string [Email]))], delete_contact)"
  by (simp add: tools_def)

text \<open>
  Claim C6. A delete-contact invocation with neither \<^verbatim>\<open>contactId\<close> nor \<^verbatim>\<open>email\<close> makes no call
  to the provider and fails; when the rest of the invocation is well-formed (the audience
  is named by a string), the failure is the error "Either contactId or email must be
  provided".
\<close>

theorem delete_contact_missing_identifier:
  assumes "opt_member raw ''contactId'' = JUndefined" and "opt_member raw ''email'' = JUndefined"
  shows "calls (call_tool cfg resend ''delete-contact'' raw) = []
       \<and> (\<exists>e. result (call_tool cfg resend ''delete-contact'' raw) = Inl e)
       \<and> (is_string (opt_member raw ''audienceId'') \<longrightarrow>
            result (call_tool cfg resend ''delete-contact'' raw)
              = Inl (Error ''Either contactId or email must be provided''))"
proof (rule call_tool_cases [OF tool_delete_contact, of raw cfg resend], goal_cases invalid valid)
  case (invalid issues)
  have "\<not> is_string (opt_member raw ''audienceId'')"
  proof
    assume str: "is_string (opt_member raw ''audienceId'')"
    then obtain kvs where raw: "raw = JObj kvs" by (cases raw) auto
    from str assms raw
    have "\<exists>a. accepts (z_object [(''audienceId'', z_string []), (''contactId'', z_optional (z_string [])),
            (''email'', z_optional (z_string [Email]))]) (JObj kvs) (JObj a)"
      by (intro z_object_acceptsI) (auto simp add: accepts_z_string accepts_z_optional is_string_iff)
    with invalid(1) raw show False by (auto simp add: safe_parse_Inr [symmetric])
  qed
  with invalid show ?thesis by simp
next
  case (valid a)
  from accepts_z_object [OF valid(1)] obtain kvs where raw: "raw = JObj kvs"
    and c: "accepts (z_optional (z_string [])) (get_prop kvs ''contactId'') (get_prop a ''contactId'')"
    and e: "accepts (z_optional (z_string [Email])) (get_prop kvs ''email'') (get_prop a ''email'')"
    by auto
  from assms raw c e have "get_prop a ''contactId'' = JUndefined" "get_prop a ''email'' = JUndefined"
    by (simp_all add: accepts_z_optional)
  with valid(2) show ?thesis by (simp add: delete_contact_def)
qed

theorem delete_contact_missing_identifier_witness:
  "opt_member (JObj [(''audienceId'', JStr ''aud_1'')]) ''contactId'' = JUndefined
   \<and> opt_member (JObj [(''audienceId'', JStr ''aud_1'')]) ''email'' = JUndefined
   \<and> is_string (opt_member (JObj [(''audienceId'', JStr ''aud_1'')]) ''audienceId'')
   \<and> calls (call_tool no_defaults accepting ''delete-contact'' (JObj [(''audienceId'', JStr ''aud_1'')])) = []
   \<and> result (call_tool no_defaults accepting ''delete-contact'' (JObj [(''audienceId'', JStr ''aud_1'')]))
       = Inl (Error ''Either contactId or email must be provided'')"
  using delete_contact_missing_identifier
    [of "JObj [(''audienceId'', JStr ''aud_1'')]" no_defaults accepting]
  by simp

subsection \<open>Upstream failures\<close>

lemma handlers_of_tools:
  "(name, shape, handler) \<in> set (tools cfg) \<Longrightarrow>
   handler \<in> {send_email cfg, send_batch_emails cfg, get_email, update_email, cancel_email,
     create_domain, list_domains, get_domain, update_domain, delete_domain, verify_domain,
     create_api_key, list_api_keys, delete_api_key, create_audience, list_audiences, get_audience,
     delete_audience, create_contact, list_contacts, get_contact, update_contact, delete_contact,
     create_broadcast, list_broadcasts, get_broadcast, send_broadcast, delete_broadcast}"
  unfolding tools_def by (simp only: set_simps insert_iff Pair_inject empty_iff) blast

lemmas handler_defs =
  send_email_def send_batch_emails_def get_email_def update_email_def cancel_email_def
  create_domain_def list_domains_def get_domain_def update_domain_def delete_domain_def
  verify_domain_def create_api_key_def list_api_keys_def delete_api_key_def create_audience_def
  list_audiences_def get_audience_def delete_audience_def create_contact_def list_contacts_def
  get_contact_def update_contact_def delete_contact_def create_broadcast_def list_broadcasts_def
  get_broadcast_def send_broadcast_def delete_broadcast_def

lemma handler_surfaces_failure:
  assumes "handler \<in> {send_email cfg, send_batch_emails cfg, get_email, update_email, cancel_email,
     create_domain, list_domains, get_domain, update_domain, delete_domain, verify_domain,
     create_api_key, list_api_keys, delete_api_key, create_audience, list_audiences, get_audience,
     delete_audience, create_contact, list_contacts, get_contact, update_contact, delete_contact,
     create_broadcast, list_broadcasts, get_broadcast, send_broadcast, delete_broadcast}"
    and "c \<in> set (calls (handler resend a))" and "error (resend (fst c) (snd c)) = JObj e"
  shows "calls (handler resend a) = [c]
     \<and> (\<exists>msg. result (handler resend a) = Inl (Error (msg @ to_string (JSON_stringify (JObj e)))))"
  using assms
  by (elim insertE emptyE)
     (auto simp add: handler_defs Let_def split: jsval.splits option.splits sum.splits if_splits)

text \<open>
  Claim C7. For every tool and every invocation: when the provider answers a call of the
  invocation with a structured error (an object), that call is the only call the invocation
  makes, and the tool result is a failure whose message ends with the JSON serialisation of
  the error object. Nothing is retried and no success is reported.
\<close>

theorem upstream_failure_surfaced:
  "\<forall>c\<in>set (calls (call_tool cfg resend name raw)).
     \<forall>e. error (resend (fst c) (snd c)) = JObj e \<longrightarrow>
       calls (call_tool cfg resend name raw) = [c]
       \<and> (\<exists>msg. result (call_tool cfg resend name raw)
                  = Inl (Error (msg @ to_string (JSON_stringify (JObj e)))))"
proof (cases "map_of (tools cfg) name")
  case None
  then show ?thesis by (simp add: call_tool_def)
next
  case (Some sh)
  obtain shape handler where sh: "sh = (shape, handler)" by (cases sh)
  from Some sh have tool: "map_of (tools cfg) name = Some (shape, handler)" by simp
  show ?thesis
  proof (rule call_tool_cases [OF tool, of raw resend], goal_cases invalid valid)
    case (invalid issues)
    then show ?case by simp
  next
    case (valid a)
    from tool have "(name, shape, handler) \<in> set (tools cfg)" by (rule map_of_SomeD)
    from handler_surfaces_failure [OF handlers_of_tools [OF this]] valid(2)
    show ?case by simp
  qed
qed

theorem upstream_failure_surfaced_witness:
  "(''emails.get'', [JStr ''em_1''])
     \<in> set (calls (call_tool no_defaults (rejecting (JObj [(''name'', JStr ''not_found'')]))
                 ''get-email'' (JObj [(''emailId'', JStr ''em_1'')])))
   \<and> error (rejecting (JObj [(''name'', JStr ''not_found'')]) ''emails.get'' [JStr ''em_1''])
       = JObj [(''name'', JStr ''not_found'')]
   \<and> calls (call_tool no_defaults (rejecting (JObj [(''name'', JStr ''not_found'')]))
                 ''get-email'' (JObj [(''emailId'', JStr ''em_1'')]))
       = [(''emails.get'', [JStr ''em_1''])]
   \<and> (\<exists>msg. result (call_tool no_defaults (rejecting (JObj [(''name'', JStr ''not_found'')]))
                 ''get-email'' (JObj [(''emailId'', JStr ''em_1'')]))
       = Inl (Error (msg @ to_string (JSON_stringify (JObj [(''name'', JStr ''not_found'')])))))"
proof -
  have c: "(''emails.get'', [JStr ''em_1''])
     \<in> set (calls (call_tool no_defaults (rejecting (JObj [(''name'', JStr ''not_found'')]))
                 ''get-email'' (JObj [(''emailId'', JStr ''em_1'')])))"
    by code_simp
  have e: "error (rejecting (JObj [(''name'', JStr ''not_found'')]) ''emails.get'' [JStr ''em_1''])
       = JObj [(''name'', JStr ''not_found'')]"
    by (simp add: rejecting_def)
  from upstream_failure_surfaced [rule_format, OF c] e c show ?thesis by simp
qed

subsection \<open>Fields of the outgoing request\<close>

lemma tool_send_broadcast:
  "map_of (tools cfg) ''send-broadcast'' =
     Some ([(''broadcastId'', z_string []), (''scheduledAt'', z_optional (z_string []))], send_broadcast)"
  by (simp add: tools_def)

lemma send_email_request_fields:
  assumes acc: "accepts (z_object (send_email_shape cfg)) (JObj kvs) (JObj a)"
    and has: "has_prop (emailRequest (nullish (get_prop a ''from'') (senderEmailAddress cfg))
                    (nullish (get_prop a ''replyTo'') (JArr (replierEmailAddresses cfg))) a) k"
  shows "(k \<in> {''to'', ''subject'', ''text'', ''from'', ''replyTo'', ''html'', ''scheduledAt'', ''cc'',
               ''bcc'', ''tags'', ''attachments'', ''headers''} \<and> get_prop kvs k \<noteq> JUndefined)
      \<or> (k = ''from'' \<and> truthy (senderEmailAddress cfg))
      \<or> (k = ''replyTo'' \<and> replierEmailAddresses cfg \<noteq> [])"
proof -
  note args = send_email_args [OF acc]
  from emailRequest_keys [OF has]
  consider (required) "k \<in> {''to'', ''subject'', ''text''}" | (sender) "k = ''from''"
    | (reply) "k = ''replyTo''"
    | (optional) "k \<in> {''html'', ''scheduledAt'', ''cc'', ''bcc'', ''tags'', ''attachments'', ''headers''}"
    by (elim insertE emptyE) simp_all
  then show ?thesis
  proof cases
    case required
    from args(3) [OF required] required show ?thesis
      by (elim insertE emptyE) simp_all
  next
    case sender
    show ?thesis
    proof (cases "truthy (senderEmailAddress cfg)")
      case True
      with sender show ?thesis by simp
    next
      case False
      from args(7) [OF False] sender show ?thesis by auto
    qed
  next
    case reply
    show ?thesis
    proof (cases "replierEmailAddresses cfg = []")
      case True
      from has reply have "truthy (nullish (get_prop a ''replyTo'') (JArr (replierEmailAddresses cfg)))
          \<and> (is_string (nullish (get_prop a ''replyTo'') (JArr (replierEmailAddresses cfg)))
               \<or> (is_array (nullish (get_prop a ''replyTo'') (JArr (replierEmailAddresses cfg)))
                 \<and> 0 < array_length (nullish (get_prop a ''replyTo'') (JArr (replierEmailAddresses cfg)))))"
        by (simp add: has_prop_emailRequest)
      with True have "get_prop a ''replyTo'' \<noteq> JUndefined"
        by (auto simp add: nullish_def)
      with args(8) [OF True] reply show ?thesis by simp
    next
      case False
      with reply show ?thesis by simp
    qed
  next
    case optional
    from has optional have "truthy (get_prop a k)"
      by (elim insertE emptyE) (simp_all add: has_prop_emailRequest)
    then have "get_prop a k \<noteq> JUndefined" by auto
    with args(1) [OF optional] have "get_prop kvs k \<noteq> JUndefined" by auto
    with optional show ?thesis by (elim insertE emptyE) simp_all
  qed
qed

text \<open>
  Claim C5. Every field of the request that send-email passes to the provider is a field
  the invocation supplied, or the sender resolved from the configured default, or the
  reply-to list resolved from a non-empty configured list. So an optional field (\<^verbatim>\<open>html\<close>,
  \<^verbatim>\<open>scheduledAt\<close>, \<^verbatim>\<open>cc\<close>, \<^verbatim>\<open>bcc\<close>, \<^verbatim>\<open>tags\<close>, \<^verbatim>\<open>attachments\<close>, \<^verbatim>\<open>headers\<close>, \<^verbatim>\<open>replyTo\<close>)
  that the invocation omits is absent from the request. A send-broadcast invocation
  without \<^verbatim>\<open>scheduledAt\<close> passes \<^verbatim>\<open>undefined\<close> in place of the options object, so its request
  has no scheduling field.
\<close>

theorem request_has_only_supplied_fields:
  "(\<forall>r\<in>set (requests (call_tool cfg resend ''send-email'' raw)). \<forall>k. has_member r k \<longrightarrow>
        (k \<in> {''to'', ''subject'', ''text'', ''from'', ''replyTo'', ''html'', ''scheduledAt'', ''cc'',
               ''bcc'', ''tags'', ''attachments'', ''headers''} \<and> opt_member raw k \<noteq> JUndefined)
      \<or> (k = ''from'' \<and> truthy (senderEmailAddress cfg))
      \<or> (k = ''replyTo'' \<and> replierEmailAddresses cfg \<noteq> []))
   \<and> (\<forall>c\<in>set (calls (call_tool cfg resend ''send-broadcast'' raw')).
         opt_member raw' ''scheduledAt'' = JUndefined \<longrightarrow>
         c = (''broadcasts.send'', [opt_member raw' ''broadcastId'', JUndefined]))"
proof
  show "\<forall>r\<in>set (requests (call_tool cfg resend ''send-email'' raw)). \<forall>k. has_member r k \<longrightarrow>
        (k \<in> {''to'', ''subject'', ''text'', ''from'', ''replyTo'', ''html'', ''scheduledAt'', ''cc'',
               ''bcc'', ''tags'', ''attachments'', ''headers''} \<and> opt_member raw k \<noteq> JUndefined)
      \<or> (k = ''from'' \<and> truthy (senderEmailAddress cfg))
      \<or> (k = ''replyTo'' \<and> replierEmailAddresses cfg \<noteq> [])"
  proof (rule call_tool_cases [OF tool_send_email [of cfg], of raw resend], goal_cases invalid valid)
    case (invalid issues)
    then show ?case by simp
  next
    case (valid a)
    from valid(1) obtain kvs where raw: "raw = JObj kvs" by (rule accepts_z_object_JObj)
    from valid(1) have acc: "accepts (z_object (send_email_shape cfg)) (JObj kvs) (JObj a)"
      unfolding raw .
    show ?case
      unfolding valid(2) requests_send_email
      using send_email_request_fields [OF acc] by (simp add: raw split: if_splits)
  qed
  show "\<forall>c\<in>set (calls (call_tool cfg resend ''send-broadcast'' raw')).
         opt_member raw' ''scheduledAt'' = JUndefined \<longrightarrow>
         c = (''broadcasts.send'', [opt_member raw' ''broadcastId'', JUndefined])"
  proof (rule call_tool_cases [OF tool_send_broadcast [of cfg], of raw' resend], goal_cases invalid valid)
    case (invalid issues)
    then show ?case by simp
  next
    case (valid a)
    from accepts_z_object [OF valid(1)] obtain kvs where raw: "raw' = JObj kvs"
      and b: "accepts (z_string []) (get_prop kvs ''broadcastId'') (get_prop a ''broadcastId'')"
      and s: "accepts (z_optional (z_string [])) (get_prop kvs ''scheduledAt'') (get_prop a ''scheduledAt'')"
      by auto
    from b have "get_prop a ''broadcastId'' = get_prop kvs ''broadcastId''"
      by (simp add: accepts_z_string)
    with s raw show ?case
      unfolding valid(2) by (auto simp add: send_broadcast_def accepts_z_optional)
  qed
qed


theorem request_has_only_supplied_fields_witness:
  "JObj (minimal_email @ [(''from'', JStr ''s@x.com'')])
     \<in> set (requests (call_tool no_defaults accepting ''send-email''
                (JObj (minimal_email @ [(''from'', JStr ''s@x.com'')]))))
   \<and> opt_member (JObj (minimal_email @ [(''from'', JStr ''s@x.com'')])) ''html'' = JUndefined
   \<and> opt_member (JObj (minimal_email @ [(''from'', JStr ''s@x.com'')])) ''replyTo'' = JUndefined
   \<and> \<not> has_member (JObj (minimal_email @ [(''from'', JStr ''s@x.com'')])) ''html''
   \<and> \<not> has_member (JObj (minimal_email @ [(''from'', JStr ''s@x.com'')])) ''replyTo''
   \<and> opt_member (JObj [(''broadcastId'', JStr ''bc_1'')]) ''scheduledAt'' = JUndefined
   \<and> calls (call_tool no_defaults accepting ''send-broadcast'' (JObj [(''broadcastId'', JStr ''bc_1'')]))
       = [(''broadcasts.send'', [JStr ''bc_1'', JUndefined])]"
proof -
  let ?raw = "JObj (minimal_email @ [(''from'', JStr ''s@x.com'')])"
  let ?bc = "JObj [(''broadcastId'', JStr ''bc_1'')]"
  note inst = request_has_only_supplied_fields [of no_defaults accepting ?raw ?bc]
  have sent: "?raw \<in> set (requests (call_tool no_defaults accepting ''send-email'' ?raw))"
    by code_simp
  have none: "replierEmailAddresses no_defaults = []"
    by code_simp
  have absent: "opt_member ?raw ''html'' = JUndefined" "opt_member ?raw ''replyTo'' = JUndefined"
    by (simp_all add: minimal_email_def)
  have 1: "\<not> has_member ?raw ''html''" "\<not> has_member ?raw ''replyTo''"
    using inst [THEN conjunct1, rule_format, OF sent, of "''html''"]
      inst [THEN conjunct1, rule_format, OF sent, of "''replyTo''"] none absent
    by auto
  have 2: "opt_member ?bc ''scheduledAt'' = JUndefined" by simp
  have 3: "calls (call_tool no_defaults accepting ''send-broadcast'' ?bc)
       = [(''broadcasts.send'', [JStr ''bc_1'', JUndefined])]"
    by code_simp
  from sent absent 1 2 3 show ?thesis by (intro conjI)
qed

subsection \<open>Batches\<close>

lemma tool_send_batch_emails:
  "map_of (tools cfg) ''send-batch-emails'' = Some (send_batch_emails_shape, send_batch_emails cfg)"
  by (simp add: tools_def)

lemma distinct_batch_email_shape:
  "distinct (map fst
     [(''to'', addresses), (''subject'', z_string []), (''text'', z_string []),
      (''from'', z_optional (z_string [Email])), (''html'', z_optional (z_string [])),
      (''cc'', z_optional addresses), (''bcc'', z_optional addresses),
      (''replyTo'', z_optional addresses), (''scheduledAt'', z_optional (z_string [])),
      (''tags'', z_optional (z_array tag None)),
      (''attachments'', z_optional (z_array (z_object
          [(''filename'', z_string []), (''content'', z_string [])]) None)),
      (''headers'', z_optional (z_record (z_string [])))])"
  by simp

text \<open>A validated batch entry is an object whose sender is absent or a well-formed address.\<close>

lemma accepts_batch_email:
  assumes "accepts batch_email e p"
  shows "\<exists>ekvs pa. e = JObj ekvs \<and> p = JObj pa
           \<and> get_prop pa ''from'' = get_prop ekvs ''from''
           \<and> (get_prop ekvs ''from'' = JUndefined \<or> (\<exists>s. get_prop ekvs ''from'' = JStr s \<and> is_email s))"
proof -
  from accepts_z_object [OF assms [unfolded batch_email_def] distinct_batch_email_shape]
  obtain ekvs pa where e: "e = JObj ekvs" and p: "p = JObj pa"
    and f: "accepts (z_optional (z_string [Email])) (get_prop ekvs ''from'') (get_prop pa ''from'')"
    by auto
  from f have "get_prop pa ''from'' = get_prop ekvs ''from''"
    by (rule accepts_optional_string)
  moreover from f have "get_prop ekvs ''from'' = JUndefined
      \<or> (\<exists>s. get_prop ekvs ''from'' = JStr s \<and> is_email s)"
    by (auto simp add: accepts_z_optional accepts_z_string split: if_splits)
  ultimately show ?thesis using e p by blast
qed

lemma batch_args:
  assumes "accepts (z_object send_batch_emails_shape) raw (JObj a)"
  shows "\<exists>es ps. opt_member raw ''emails'' = JArr es \<and> get_prop a ''emails'' = JArr ps
           \<and> length ps = length es \<and> length es \<le> 100
           \<and> (\<forall>i<length es. accepts batch_email (es ! i) (ps ! i))"
proof -
  have d: "distinct (map fst send_batch_emails_shape)" by (simp add: send_batch_emails_shape_def)
  from accepts_z_object [OF assms d] obtain kvs where raw: "raw = JObj kvs"
    and arr: "accepts (z_array batch_email (Some 100)) (get_prop kvs ''emails'') (get_prop a ''emails'')"
    by (auto simp add: send_batch_emails_shape_def)
  from arr obtain es where es: "get_prop kvs ''emails'' = JArr es" and len: "length es \<le> 100"
    and ok: "\<forall>e\<in>set es. fst (batch_email e) = [] \<and> snd (batch_email e) \<noteq> None"
    and ps: "get_prop a ''emails'' = JArr (map (\<lambda>e. the (snd (batch_email e))) es)"
    unfolding accepts_z_array by auto
  have "accepts batch_email (es ! i) (map (\<lambda>e. the (snd (batch_email e))) es ! i)" if "i < length es" for i
    using ok that by (auto simp add: accepts_iff)
  with raw es len ps show ?thesis by auto
qed

lemma those_with_default_from:
  assumes "\<forall>p\<in>set ps. \<exists>pa. p = JObj pa"
  shows "\<exists>rs. those (map (with_default_from s) ps) = Some rs \<and> length rs = length ps
           \<and> (\<forall>i<length ps. opt_member (rs ! i) ''from'' = js_or (opt_member (ps ! i) ''from'') s)"
proof -
  from assms have some: "\<forall>p\<in>set ps. with_default_from s p \<noteq> None" by auto
  have "opt_member (the (with_default_from s (ps ! i))) ''from'' = js_or (opt_member (ps ! i) ''from'') s"
    if "i < length ps" for i
  proof -
    from assms that obtain pa where "ps ! i = JObj pa" by (metis nth_mem)
    then show ?thesis by simp
  qed
  with some show ?thesis unfolding those_map by simp
qed

text \<open>A validated batch invocation makes one call, with one request per entry.\<close>

lemma batch_run:
  assumes "accepts (z_object send_batch_emails_shape) raw (JObj a)"
  shows "\<exists>es rs. opt_member raw ''emails'' = JArr es \<and> length rs = length es \<and> length es \<le> 100
     \<and> send_batch_emails cfg resend a =
         await resend ''batch.send'' [JArr rs]
           (\<lambda>response.
              if truthy (error response) then failed ''Batch email failed to send: '' response
              else (case batch_ids (data response) of
                      Inl e \<Rightarrow> throw e
                    | Inr ids \<Rightarrow> return_text (JStr (''Batch emails sent successfully! IDs: ''
                                                    @ to_string ids))))
     \<and> (\<forall>i<length es. opt_member (rs ! i) ''from''
            = (if opt_member (es ! i) ''from'' = JUndefined then senderEmailAddress cfg
               else opt_member (es ! i) ''from''))"
proof -
  from batch_args [OF assms] obtain es ps where es: "opt_member raw ''emails'' = JArr es"
    and ps: "get_prop a ''emails'' = JArr ps" and len: "length ps = length es" "length es \<le> 100"
    and acc: "\<forall>i<length es. accepts batch_email (es ! i) (ps ! i)"
    by blast
  have obj: "\<forall>p\<in>set ps. \<exists>pa. p = JObj pa"
  proof
    fix p assume "p \<in> set ps"
    then obtain i where i: "i < length ps" "p = ps ! i" by (auto simp add: in_set_conv_nth)
    with acc len accepts_batch_email [of "es ! i" p] show "\<exists>pa. p = JObj pa" by auto
  qed
  from those_with_default_from [OF obj, of "senderEmailAddress cfg"] obtain rs
    where rs: "those (map (with_default_from (senderEmailAddress cfg)) ps) = Some rs"
      and lrs: "length rs = length ps"
      and sender: "\<forall>i<length ps. opt_member (rs ! i) ''from''
                     = js_or (opt_member (ps ! i) ''from'') (senderEmailAddress cfg)"
    by blast
  have "opt_member (rs ! i) ''from''
            = (if opt_member (es ! i) ''from'' = JUndefined then senderEmailAddress cfg
               else opt_member (es ! i) ''from'')" if i: "i < length es" for i
  proof -
    from acc i have "accepts batch_email (es ! i) (ps ! i)" by simp
    from accepts_batch_email [OF this] obtain ekvs pa where "es ! i = JObj ekvs" "ps ! i = JObj pa"
      "get_prop pa ''from'' = get_prop ekvs ''from''"
      "get_prop ekvs ''from'' = JUndefined \<or> (\<exists>s. get_prop ekvs ''from'' = JStr s \<and> is_email s)"
      by blast
    with sender i len show ?thesis by (auto simp add: js_or_def)
  qed
  moreover from ps rs have "send_batch_emails cfg resend a =
         await resend ''batch.send'' [JArr rs]
           (\<lambda>response.
              if truthy (error response) then failed ''Batch email failed to send: '' response
              else (case batch_ids (data response) of
                      Inl e \<Rightarrow> throw e
                    | Inr ids \<Rightarrow> return_text (JStr (''Batch emails sent successfully! IDs: ''
                                                    @ to_string ids))))"
    by (simp add: send_batch_emails_def)
  ultimately show ?thesis using es lrs len by auto
qed


lemma falsy_sender:
  "\<not> truthy (senderEmailAddress cfg) \<Longrightarrow>
   senderEmailAddress cfg = JUndefined \<or> senderEmailAddress cfg = JStr []"
  by (cases "env_sender cfg")
     (auto simp add: senderEmailAddress_def js_or_def env_value_def split: if_splits)

lemma safe_parse_issues: "fst (s v) \<noteq> [] \<Longrightarrow> safe_parse s v = Inl (fst (s v))"
  by (simp add: safe_parse_def split: option.splits)

lemma accepts_batch_email_required:
  assumes "accepts batch_email (JObj ekvs) (JObj pa)"
  shows "get_prop pa ''to'' = get_prop ekvs ''to''"
    and "get_prop pa ''subject'' = get_prop ekvs ''subject''"
    and "get_prop pa ''text'' = get_prop ekvs ''text''"
proof -
  from accepts_z_object [OF assms [unfolded batch_email_def] distinct_batch_email_shape]
  have t: "accepts addresses (get_prop ekvs ''to'') (get_prop pa ''to'')"
    and s: "accepts (z_string []) (get_prop ekvs ''subject'') (get_prop pa ''subject'')"
    and b: "accepts (z_string []) (get_prop ekvs ''text'') (get_prop pa ''text'')"
    by auto
  from accepts_addresses [OF t] show "get_prop pa ''to'' = get_prop ekvs ''to''" by simp
  from s show "get_prop pa ''subject'' = get_prop ekvs ''subject''" by (simp add: accepts_z_string)
  from b show "get_prop pa ''text'' = get_prop ekvs ''text''" by (simp add: accepts_z_string)
qed

text \<open>
  The request of a validated batch invocation: every validated entry with its sender set,
  in the order of the entries.
\<close>

lemma batch_forwarded:
  assumes "accepts (z_object send_batch_emails_shape) raw (JObj a)"
  shows "\<exists>es ps. opt_member raw ''emails'' = JArr es \<and> length ps = length es
     \<and> (\<forall>i<length es. accepts batch_email (es ! i) (ps ! i))
     \<and> send_batch_emails cfg resend a =
         await resend ''batch.send''
           [JArr (map (\<lambda>p. the (with_default_from (senderEmailAddress cfg) p)) ps)]
           (\<lambda>response.
              if truthy (error response) then failed ''Batch email failed to send: '' response
              else (case batch_ids (data response) of
                      Inl e \<Rightarrow> throw e
                    | Inr ids \<Rightarrow> return_text (JStr (''Batch emails sent successfully! IDs: ''
                                                    @ to_string ids))))"
proof -
  from batch_args [OF assms] obtain es ps where es: "opt_member raw ''emails'' = JArr es"
    and ps: "get_prop a ''emails'' = JArr ps" and len: "length ps = length es"
    and acc: "\<forall>i<length es. accepts batch_email (es ! i) (ps ! i)"
    by blast
  have "with_default_from (senderEmailAddress cfg) p \<noteq> None" if "p \<in> set ps" for p
  proof -
    from that obtain i where i: "i < length ps" "p = ps ! i" by (auto simp add: in_set_conv_nth)
    with acc len accepts_batch_email [of "es ! i" p] obtain pa where "p = JObj pa" by auto
    then show ?thesis by simp
  qed
  then have "those (map (with_default_from (senderEmailAddress cfg)) ps)
      = Some (map (\<lambda>p. the (with_default_from (senderEmailAddress cfg) p)) ps)"
    unfolding those_map by simp
  with ps have "send_batch_emails cfg resend a =
         await resend ''batch.send''
           [JArr (map (\<lambda>p. the (with_default_from (senderEmailAddress cfg) p)) ps)]
           (\<lambda>response.
              if truthy (error response) then failed ''Batch email failed to send: '' response
              else (case batch_ids (data response) of
                      Inl e \<Rightarrow> throw e
                    | Inr ids \<Rightarrow> return_text (JStr (''Batch emails sent successfully! IDs: ''
                                                    @ to_string ids))))"
    by (simp add: send_batch_emails_def)
  with es len acc show ?thesis by blast
qed

text \<open>
  Rendering the identifiers of a successful batch fails only on data that is present but
  has no list of entries under \<^verbatim>\<open>data\<close>, or a list with a nullish entry.
\<close>

lemma batch_ids_error:
  assumes "batch_ids d = Inl e"
  shows "e = TypeError \<and> d \<noteq> JUndefined \<and> d \<noteq> JNull
     \<and> (\<forall>xs. opt_member d ''data'' = JArr xs \<longrightarrow> (\<exists>x\<in>set xs. x = JUndefined \<or> x = JNull))"
  using assms
  by (auto simp add: batch_ids_def list_all_iff split: if_splits jsval.splits)

text \<open>
  Claim C8. When no default sender is configured, a validated send-batch-emails invocation
  is never rejected by the handler for a missing sender. It makes exactly one call to the
  provider, whose request lists, in order, every validated entry with \<^verbatim>\<open>from\<close> set: to the
  entry's own address, or for an entry that omits \<^verbatim>\<open>from\<close> to the (absent or empty)
  configured value. The recipient, subject and text of each entry reach the provider
  unchanged. The result is decided by the provider's response alone: an error there gives
  the failure that carries it, and the only other failure is a type error in rendering a
  response that reports no error but whose data is present without a list of entries under
  \<^verbatim>\<open>data\<close>, or with a nullish entry in that list.
\<close>

theorem batch_without_sender_forwarded:
  assumes "\<not> truthy (senderEmailAddress cfg)"
    and "safe_parse (z_object send_batch_emails_shape) raw = Inr parsed"
    and "opt_member raw ''emails'' = JArr es"
  shows "\<exists>rs. calls (call_tool cfg resend ''send-batch-emails'' raw) = [(''batch.send'', [JArr rs])]
      \<and> length rs = length es
      \<and> (\<forall>i<length es. \<exists>pa. accepts batch_email (es ! i) (JObj pa)
            \<and> rs ! i = JObj (set_prop ''from''
                 (if opt_member (es ! i) ''from'' = JUndefined then senderEmailAddress cfg
                  else opt_member (es ! i) ''from'') pa)
            \<and> opt_member (rs ! i) ''to'' = opt_member (es ! i) ''to''
            \<and> opt_member (rs ! i) ''subject'' = opt_member (es ! i) ''subject''
            \<and> opt_member (rs ! i) ''text'' = opt_member (es ! i) ''text'')
      \<and> (\<forall>i<length es. opt_member (es ! i) ''from'' = JUndefined \<longrightarrow>
            opt_member (rs ! i) ''from'' = senderEmailAddress cfg
            \<and> (opt_member (rs ! i) ''from'' = JUndefined \<or> opt_member (rs ! i) ''from'' = JStr []))
      \<and> result (call_tool cfg resend ''send-batch-emails'' raw)
          = (if truthy (error (resend ''batch.send'' [JArr rs]))
             then Inl (Error (''Batch email failed to send: ''
                              @ to_string (JSON_stringify (error (resend ''batch.send'' [JArr rs])))))
             else (case batch_ids (data (resend ''batch.send'' [JArr rs])) of
                     Inl e \<Rightarrow> Inl e
                   | Inr ids \<Rightarrow> Inr (JStr (''Batch emails sent successfully! IDs: '' @ to_string ids))))
      \<and> (\<forall>e. result (call_tool cfg resend ''send-batch-emails'' raw) = Inl e \<longrightarrow>
            (if truthy (error (resend ''batch.send'' [JArr rs]))
             then e = Error (''Batch email failed to send: ''
                             @ to_string (JSON_stringify (error (resend ''batch.send'' [JArr rs]))))
             else e = TypeError
                  \<and> data (resend ''batch.send'' [JArr rs]) \<noteq> JUndefined
                  \<and> data (resend ''batch.send'' [JArr rs]) \<noteq> JNull
                  \<and> (\<forall>xs. opt_member (data (resend ''batch.send'' [JArr rs])) ''data'' = JArr xs \<longrightarrow>
                        (\<exists>x\<in>set xs. x = JUndefined \<or> x = JNull))))"
proof (rule call_tool_cases [OF tool_send_batch_emails [of cfg], of raw resend], goal_cases invalid valid)
  case (invalid issues)
  with assms(2) show ?case by simp
next
  case (valid a)
  let ?s = "senderEmailAddress cfg"
  from batch_forwarded [OF valid(1), of cfg resend] assms(3) obtain ps
    where len: "length ps = length es"
      and acc: "\<forall>i<length es. accepts batch_email (es ! i) (ps ! i)"
      and run: "send_batch_emails cfg resend a =
         await resend ''batch.send'' [JArr (map (\<lambda>p. the (with_default_from ?s p)) ps)]
           (\<lambda>response.
              if truthy (error response) then failed ''Batch email failed to send: '' response
              else (case batch_ids (data response) of
                      Inl e \<Rightarrow> throw e
                    | Inr ids \<Rightarrow> return_text (JStr (''Batch emails sent successfully! IDs: ''
                                                    @ to_string ids))))"
    by auto
  let ?rs = "map (\<lambda>p. the (with_default_from ?s p)) ps"
  let ?R = "resend ''batch.send'' [JArr ?rs]"
  have 1: "calls (call_tool cfg resend ''send-batch-emails'' raw) = [(''batch.send'', [JArr ?rs])]"
    unfolding valid(2) run by (simp split: sum.splits)
  have 2: "length ?rs = length es" using len by simp
  have entry: "\<exists>pa. accepts batch_email (es ! i) (JObj pa)
            \<and> ?rs ! i = JObj (set_prop ''from''
                 (if opt_member (es ! i) ''from'' = JUndefined then ?s
                  else opt_member (es ! i) ''from'') pa)
            \<and> opt_member (?rs ! i) ''to'' = opt_member (es ! i) ''to''
            \<and> opt_member (?rs ! i) ''subject'' = opt_member (es ! i) ''subject''
            \<and> opt_member (?rs ! i) ''text'' = opt_member (es ! i) ''text''
            \<and> opt_member (?rs ! i) ''from''
                = (if opt_member (es ! i) ''from'' = JUndefined then ?s else opt_member (es ! i) ''from'')"
    if i: "i < length es" for i
  proof -
    from acc i have a: "accepts batch_email (es ! i) (ps ! i)" by simp
    from accepts_batch_email [OF a] obtain ekvs pa where e: "es ! i = JObj ekvs" and p: "ps ! i = JObj pa"
      and f: "get_prop pa ''from'' = get_prop ekvs ''from''"
      and v: "get_prop ekvs ''from'' = JUndefined \<or> (\<exists>s. get_prop ekvs ''from'' = JStr s \<and> is_email s)"
      by blast
    from a e p have a': "accepts batch_email (JObj ekvs) (JObj pa)" by simp
    from v have or: "js_or (get_prop ekvs ''from'') ?s
        = (if get_prop ekvs ''from'' = JUndefined then ?s else get_prop ekvs ''from'')"
      by (auto simp add: js_or_def)
    from i len p f or have r: "?rs ! i = JObj (set_prop ''from''
        (if get_prop ekvs ''from'' = JUndefined then ?s else get_prop ekvs ''from'') pa)"
      by simp
    from a' r accepts_batch_email_required [OF a'] show ?thesis
      by (intro exI [of _ pa]) (simp add: e)
  qed
  have 3: "\<forall>i<length es. \<exists>pa. accepts batch_email (es ! i) (JObj pa)
            \<and> ?rs ! i = JObj (set_prop ''from''
                 (if opt_member (es ! i) ''from'' = JUndefined then ?s
                  else opt_member (es ! i) ''from'') pa)
            \<and> opt_member (?rs ! i) ''to'' = opt_member (es ! i) ''to''
            \<and> opt_member (?rs ! i) ''subject'' = opt_member (es ! i) ''subject''
            \<and> opt_member (?rs ! i) ''text'' = opt_member (es ! i) ''text''"
    using entry by blast
  have 4: "\<forall>i<length es. opt_member (es ! i) ''from'' = JUndefined \<longrightarrow>
            opt_member (?rs ! i) ''from'' = ?s
            \<and> (opt_member (?rs ! i) ''from'' = JUndefined \<or> opt_member (?rs ! i) ''from'' = JStr [])"
  proof (intro allI impI)
    fix i assume "i < length es" "opt_member (es ! i) ''from'' = JUndefined"
    with entry [of i] have "opt_member (?rs ! i) ''from'' = ?s" by auto
    with falsy_sender [OF assms(1)]
    show "opt_member (?rs ! i) ''from'' = ?s
            \<and> (opt_member (?rs ! i) ''from'' = JUndefined \<or> opt_member (?rs ! i) ''from'' = JStr [])"
      by auto
  qed
  have 5: "result (call_tool cfg resend ''send-batch-emails'' raw)
          = (if truthy (error ?R)
             then Inl (Error (''Batch email failed to send: '' @ to_string (JSON_stringify (error ?R))))
             else (case batch_ids (data ?R) of
                     Inl e \<Rightarrow> Inl e
                   | Inr ids \<Rightarrow> Inr (JStr (''Batch emails sent successfully! IDs: '' @ to_string ids))))"
    unfolding valid(2) run by (simp split: sum.splits)
  have 6: "\<forall>e. result (call_tool cfg resend ''send-batch-emails'' raw) = Inl e \<longrightarrow>
            (if truthy (error ?R)
             then e = Error (''Batch email failed to send: '' @ to_string (JSON_stringify (error ?R)))
             else e = TypeError \<and> data ?R \<noteq> JUndefined \<and> data ?R \<noteq> JNull
                  \<and> (\<forall>xs. opt_member (data ?R) ''data'' = JArr xs \<longrightarrow>
                        (\<exists>x\<in>set xs. x = JUndefined \<or> x = JNull)))"
  proof (intro allI impI)
    fix e assume r: "result (call_tool cfg resend ''send-batch-emails'' raw) = Inl e"
    show "if truthy (error ?R)
             then e = Error (''Batch email failed to send: '' @ to_string (JSON_stringify (error ?R)))
             else e = TypeError \<and> data ?R \<noteq> JUndefined \<and> data ?R \<noteq> JNull
                  \<and> (\<forall>xs. opt_member (data ?R) ''data'' = JArr xs \<longrightarrow>
                        (\<exists>x\<in>set xs. x = JUndefined \<or> x = JNull))"
    proof (cases "truthy (error ?R)")
      case True
      with r 5 show ?thesis by simp
    next
      case False
      with r 5 have "batch_ids (data ?R) = Inl e" by (simp split: sum.splits)
      from batch_ids_error [OF this] False show ?thesis by simp
    qed
  qed
  from 1 2 3 4 5 6 show ?case by blast
qed


theorem batch_without_sender_forwarded_witness:
  "\<not> truthy (senderEmailAddress no_defaults)
   \<and> safe_parse (z_object send_batch_emails_shape) (JObj [(''emails'', JArr [JObj minimal_email])])
       = Inr (JObj [(''emails'', JArr [JObj minimal_email])])
   \<and> opt_member (JObj [(''emails'', JArr [JObj minimal_email])]) ''emails'' = JArr [JObj minimal_email]
   \<and> opt_member (JObj minimal_email) ''from'' = JUndefined
   \<and> calls (call_tool no_defaults accepting ''send-batch-emails''
               (JObj [(''emails'', JArr [JObj minimal_email])]))
       = [(''batch.send'', [JArr [JObj (minimal_email @ [(''from'', JUndefined)])]])]"
proof -
  let ?raw = "JObj [(''emails'', JArr [JObj minimal_email])]"
  have 1: "\<not> truthy (senderEmailAddress no_defaults)" by code_simp
  have 2: "safe_parse (z_object send_batch_emails_shape) ?raw = Inr ?raw" by code_simp
  have 3: "opt_member ?raw ''emails'' = JArr [JObj minimal_email]" by simp
  have 4: "opt_member (JObj minimal_email) ''from'' = JUndefined"
    by (simp add: minimal_email_def)
  have s: "senderEmailAddress no_defaults = JUndefined" by code_simp
  have own: "accepts batch_email (JObj minimal_email) (JObj minimal_email)" by code_simp
  have set: "set_prop ''from'' JUndefined minimal_email = minimal_email @ [(''from'', JUndefined)]"
    by (simp add: minimal_email_def set_prop_def)
  from batch_without_sender_forwarded [OF 1 2 3, of accepting] obtain rs
    where c: "calls (call_tool no_defaults accepting ''send-batch-emails'' ?raw)
                = [(''batch.send'', [JArr rs])]"
      and l: "length rs = length [JObj minimal_email]"
      and ent: "\<forall>i<length [JObj minimal_email].
            \<exists>pa. accepts batch_email ([JObj minimal_email] ! i) (JObj pa)
            \<and> rs ! i = JObj (set_prop ''from''
                 (if opt_member ([JObj minimal_email] ! i) ''from'' = JUndefined
                  then senderEmailAddress no_defaults
                  else opt_member ([JObj minimal_email] ! i) ''from'') pa)
            \<and> opt_member (rs ! i) ''to'' = opt_member ([JObj minimal_email] ! i) ''to''
            \<and> opt_member (rs ! i) ''subject'' = opt_member ([JObj minimal_email] ! i) ''subject''
            \<and> opt_member (rs ! i) ''text'' = opt_member ([JObj minimal_email] ! i) ''text''"
    by (elim exE conjE) (rule that)
  from ent [rule_format, of 0] obtain pa
    where a: "accepts batch_email (JObj minimal_email) (JObj pa)"
      and r: "rs ! 0 = JObj (set_prop ''from''
                 (if opt_member (JObj minimal_email) ''from'' = JUndefined
                  then senderEmailAddress no_defaults
                  else opt_member (JObj minimal_email) ''from'') pa)"
    by auto
  from a own have "pa = minimal_email" by (simp add: accepts_def)
  with r 4 s set have "rs ! 0 = JObj (minimal_email @ [(''from'', JUndefined)])" by simp
  with l have "rs = [JObj (minimal_email @ [(''from'', JUndefined)])]"
    by (cases rs) auto
  with c have 5: "calls (call_tool no_defaults accepting ''send-batch-emails'' ?raw)
       = [(''batch.send'', [JArr [JObj (minimal_email @ [(''from'', JUndefined)])]])]" by simp
  from 1 2 3 4 5 show ?thesis by (intro conjI)
qed

text \<open>
  Claim C2, as the schema has it: a list of at most 100 entries, each of them valid, is
  accepted, and a longer list is rejected with a \<open>too_big\<close> issue on \<^verbatim>\<open>emails\<close> before the
  handler runs. The schema sets no minimum.
\<close>

theorem batch_size_limit:
  "(length es \<le> 100 \<and> (\<forall>e\<in>set es. \<exists>p. accepts batch_email e p) \<longrightarrow>
      (\<exists>a. safe_parse (z_object send_batch_emails_shape) (JObj [(''emails'', JArr es)]) = Inr a))
   \<and> (100 < length es \<longrightarrow>
      (\<exists>issues. safe_parse (z_object send_batch_emails_shape) (JObj [(''emails'', JArr es)]) = Inl issues
          \<and> Issue [Key ''emails''] too_big \<in> set issues
          \<and> call_tool cfg resend ''send-batch-emails'' (JObj [(''emails'', JArr es)])
              = throw (InvalidParams issues)))"
proof (intro conjI impI)
  assume a: "length es \<le> 100 \<and> (\<forall>e\<in>set es. \<exists>p. accepts batch_email e p)"
  then have "\<forall>e\<in>set es. fst (batch_email e) = [] \<and> snd (batch_email e) \<noteq> None"
    by (auto simp add: accepts_iff)
  with a have "\<exists>x. accepts (z_array batch_email (Some 100)) (JArr es) x"
    unfolding accepts_z_array by simp
  then have "\<exists>a. accepts (z_object send_batch_emails_shape) (JObj [(''emails'', JArr es)]) (JObj a)"
    by (intro z_object_acceptsI) (simp add: send_batch_emails_shape_def)
  then show "\<exists>a. safe_parse (z_object send_batch_emails_shape) (JObj [(''emails'', JArr es)]) = Inr a"
    by (auto simp add: safe_parse_Inr)
next
  assume big: "100 < length es"
  let ?raw = "JObj [(''emails'', JArr es)]"
  let ?issues = "fst (z_object send_batch_emails_shape ?raw)"
  from big obtain rest where "fst (z_array batch_email (Some 100) (JArr es)) = Issue [] too_big # rest"
    unfolding z_array_JArr by simp
  then have hd: "?issues = Issue [Key ''emails''] too_big
       # map (\<lambda>i. Issue (Key ''emails'' # path i) (code i)) rest"
    unfolding z_object_JObj by (simp add: send_batch_emails_shape_def at_def)
  then have parse: "safe_parse (z_object send_batch_emails_shape) ?raw = Inl ?issues"
    by (intro safe_parse_issues) simp
  moreover from hd have "Issue [Key ''emails''] too_big \<in> set ?issues" by simp
  moreover from parse have "call_tool cfg resend ''send-batch-emails'' ?raw = throw (InvalidParams ?issues)"
    by (simp add: call_tool_def tool_send_batch_emails)
  ultimately show "\<exists>issues. safe_parse (z_object send_batch_emails_shape) ?raw = Inl issues
          \<and> Issue [Key ''emails''] too_big \<in> set issues
          \<and> call_tool cfg resend ''send-batch-emails'' ?raw = throw (InvalidParams issues)"
    by blast
qed

theorem batch_size_limit_witness:
  "length [JObj minimal_email] \<le> 100
   \<and> accepts batch_email (JObj minimal_email) (JObj minimal_email)
   \<and> (\<exists>a. safe_parse (z_object send_batch_emails_shape) (JObj [(''emails'', JArr [JObj minimal_email])])
          = Inr a)
   \<and> 100 < length (replicate 101 JNull)
   \<and> (\<exists>issues. safe_parse (z_object send_batch_emails_shape) (JObj [(''emails'', JArr (replicate 101 JNull))])
          = Inl issues \<and> Issue [Key ''emails''] too_big \<in> set issues)"
proof -
  have acc: "accepts batch_email (JObj minimal_email) (JObj minimal_email)" by code_simp
  have small: "length [JObj minimal_email] \<le> 100" by simp
  have big: "100 < length (replicate 101 JNull)" by simp
  from batch_size_limit [of "[JObj minimal_email]", THEN conjunct1] acc
  have a: "\<exists>a. safe_parse (z_object send_batch_emails_shape) (JObj [(''emails'', JArr [JObj minimal_email])])
          = Inr a" by auto
  from batch_size_limit [of "replicate 101 JNull" no_defaults accepting, THEN conjunct2, rule_format, OF big]
  have b: "\<exists>issues. safe_parse (z_object send_batch_emails_shape) (JObj [(''emails'', JArr (replicate 101 JNull))])
          = Inl issues \<and> Issue [Key ''emails''] too_big \<in> set issues" by blast
  from small acc a big b show ?thesis by (intro conjI)
qed

text \<open>
  Claim C2 as stated fails in its third part: the empty list passes validation and is
  forwarded to the provider as an empty batch.
\<close>

theorem empty_batch_counterexample:
  "safe_parse (z_object send_batch_emails_shape) (JObj [(''emails'', JArr [])])
     = Inr (JObj [(''emails'', JArr [])])
   \<and> calls (call_tool no_defaults accepting ''send-batch-emails'' (JObj [(''emails'', JArr [])]))
       = [(''batch.send'', [JArr []])]"
  by code_simp


subsection \<open>Default sender and reply-to\<close>

text \<open>The sender and reply-to value that the handler resolves from validated arguments.\<close>

lemma resolved_sender:
  assumes "accepts (z_object (send_email_shape cfg)) (JObj kvs) (JObj a)"
  shows "nullish (get_prop a ''from'') (senderEmailAddress cfg)
           = (if truthy (senderEmailAddress cfg) then senderEmailAddress cfg else get_prop kvs ''from'')"
    and "\<not> truthy (senderEmailAddress cfg) \<Longrightarrow>
           is_string (nullish (get_prop a ''from'') (senderEmailAddress cfg))"
proof -
  note args = send_email_args [OF assms]
  show "nullish (get_prop a ''from'') (senderEmailAddress cfg)
           = (if truthy (senderEmailAddress cfg) then senderEmailAddress cfg else get_prop kvs ''from'')"
  proof (cases "truthy (senderEmailAddress cfg)")
    case True
    with args(6) show ?thesis by (simp add: nullish_def)
  next
    case False
    with args(7) show ?thesis by (auto simp add: nullish_def)
  qed
  show "is_string (nullish (get_prop a ''from'') (senderEmailAddress cfg))"
    if "\<not> truthy (senderEmailAddress cfg)"
    using args(7) [OF that] by (auto simp add: nullish_def)
qed

lemma resolved_reply_to:
  assumes "accepts (z_object (send_email_shape cfg)) (JObj kvs) (JObj a)"
  shows "get_prop (emailRequest f (nullish (get_prop a ''replyTo'') (JArr (replierEmailAddresses cfg))) a)
           ''replyTo''
         = (if replierEmailAddresses cfg = []
            then (if get_prop kvs ''replyTo'' = JArr [] then JUndefined else get_prop kvs ''replyTo'')
            else JArr (replierEmailAddresses cfg))"
proof (cases "replierEmailAddresses cfg = []")
  case True
  from send_email_args(8) [OF assms True]
  have same: "get_prop a ''replyTo'' = get_prop kvs ''replyTo''"
    and acc: "accepts (z_optional addresses) (get_prop kvs ''replyTo'') (get_prop kvs ''replyTo'')"
    by auto
  from acc consider (none) "get_prop kvs ''replyTo'' = JUndefined"
    | (one) s where "get_prop kvs ''replyTo'' = JStr s" "is_email s"
    | (many) xs where "get_prop kvs ''replyTo'' = JArr xs"
    by (auto simp add: accepts_z_optional dest: accepts_addresses split: if_splits)
  then show ?thesis
  proof cases
    case none
    with True same show ?thesis by (simp add: get_prop_emailRequest_replyTo nullish_def)
  next
    case one
    then have "s \<noteq> []" by auto
    with one True same show ?thesis by (simp add: get_prop_emailRequest_replyTo nullish_def)
  next
    case many
    with True same show ?thesis
      by (cases xs) (simp_all add: get_prop_emailRequest_replyTo nullish_def)
  qed
next
  case False
  from send_email_args(9) [OF assms False] False show ?thesis
    by (cases "replierEmailAddresses cfg") (simp_all add: get_prop_emailRequest_replyTo nullish_def)
qed

text \<open>
  Claim C1, as the code has it. For send-email the sender of every outgoing request is the
  configured default whenever one is configured: the schema then has no \<^verbatim>\<open>from\<close> parameter,
  and a \<^verbatim>\<open>from\<close> in the raw arguments is dropped by validation. Only without a configured
  default is the sender the invocation's \<^verbatim>\<open>from\<close>. For each entry of a validated
  send-batch-emails invocation the sender is the entry's \<^verbatim>\<open>from\<close> when it has one and the
  configured default otherwise.
\<close>

theorem sender_resolution:
  "(\<forall>r\<in>set (requests (call_tool cfg resend ''send-email'' raw)).
      opt_member r ''from''
        = (if truthy (senderEmailAddress cfg) then senderEmailAddress cfg else opt_member raw ''from''))
   \<and> (\<forall>es. opt_member raw' ''emails'' = JArr es
            \<and> (\<exists>parsed. safe_parse (z_object send_batch_emails_shape) raw' = Inr parsed) \<longrightarrow>
        (\<exists>rs. requests (call_tool cfg resend ''send-batch-emails'' raw') = [JArr rs]
            \<and> length rs = length es
            \<and> (\<forall>i<length es. opt_member (rs ! i) ''from''
                  = (if opt_member (es ! i) ''from'' = JUndefined then senderEmailAddress cfg
                     else opt_member (es ! i) ''from''))))"
proof (intro conjI allI impI)
  show "\<forall>r\<in>set (requests (call_tool cfg resend ''send-email'' raw)).
      opt_member r ''from''
        = (if truthy (senderEmailAddress cfg) then senderEmailAddress cfg else opt_member raw ''from'')"
  proof (rule call_tool_cases [OF tool_send_email [of cfg], of raw resend], goal_cases invalid valid)
    case (invalid issues)
    then show ?case by simp
  next
    case (valid a)
    from valid(1) obtain kvs where raw: "raw = JObj kvs" by (rule accepts_z_object_JObj)
    from valid(1) have acc: "accepts (z_object (send_email_shape cfg)) (JObj kvs) (JObj a)"
      unfolding raw .
    show ?case
      unfolding valid(2) requests_send_email
      by (simp add: get_prop_emailRequest_from resolved_sender(1) [OF acc] raw)
  qed
next
  fix es
  assume a: "opt_member raw' ''emails'' = JArr es
            \<and> (\<exists>parsed. safe_parse (z_object send_batch_emails_shape) raw' = Inr parsed)"
  show "\<exists>rs. requests (call_tool cfg resend ''send-batch-emails'' raw') = [JArr rs]
            \<and> length rs = length es
            \<and> (\<forall>i<length es. opt_member (rs ! i) ''from''
                  = (if opt_member (es ! i) ''from'' = JUndefined then senderEmailAddress cfg
                     else opt_member (es ! i) ''from''))"
  proof (rule call_tool_cases [OF tool_send_batch_emails [of cfg], of raw' resend], goal_cases invalid valid)
    case (invalid issues)
    with a show ?case by auto
  next
    case (valid p)
    from batch_run [OF valid(1), of cfg resend] a obtain rs
      where len: "length rs = length es"
        and run: "send_batch_emails cfg resend p =
           await resend ''batch.send'' [JArr rs]
             (\<lambda>response.
                if truthy (error response) then failed ''Batch email failed to send: '' response
                else (case batch_ids (data response) of
                        Inl e \<Rightarrow> throw e
                      | Inr ids \<Rightarrow> return_text (JStr (''Batch emails sent successfully! IDs: ''
                                                      @ to_string ids))))"
        and sender: "\<forall>i<length es. opt_member (rs ! i) ''from''
              = (if opt_member (es ! i) ''from'' = JUndefined then senderEmailAddress cfg
                 else opt_member (es ! i) ''from'')"
      by auto
    have "requests (call_tool cfg resend ''send-batch-emails'' raw') = [JArr rs]"
      unfolding valid(2) run by (simp add: requests_def split: sum.splits)
    with len sender show ?case by blast
  qed
qed

theorem sender_resolution_witness:
  "JObj (minimal_email @ [(''from'', JStr ''s@x.com'')])
     \<in> set (requests (call_tool no_defaults accepting ''send-email''
                (JObj (minimal_email @ [(''from'', JStr ''s@x.com'')]))))
   \<and> opt_member (JObj (minimal_email @ [(''from'', JStr ''s@x.com'')])) ''from''
       = (if truthy (senderEmailAddress no_defaults) then senderEmailAddress no_defaults
          else opt_member (JObj (minimal_email @ [(''from'', JStr ''s@x.com'')])) ''from'')
   \<and> opt_member (JObj [(''emails'', JArr [JObj minimal_email])]) ''emails'' = JArr [JObj minimal_email]
   \<and> safe_parse (z_object send_batch_emails_shape) (JObj [(''emails'', JArr [JObj minimal_email])])
       = Inr (JObj [(''emails'', JArr [JObj minimal_email])])
   \<and> (\<exists>rs. requests (call_tool with_defaults accepting ''send-batch-emails''
                      (JObj [(''emails'', JArr [JObj minimal_email])])) = [JArr rs]
         \<and> length rs = 1 \<and> opt_member (rs ! 0) ''from'' = senderEmailAddress with_defaults)"
proof -
  let ?raw = "JObj (minimal_email @ [(''from'', JStr ''s@x.com'')])"
  let ?batch = "JObj [(''emails'', JArr [JObj minimal_email])]"
  note inst = sender_resolution [of no_defaults accepting ?raw ?batch]
  note inst' = sender_resolution [of with_defaults accepting ?raw ?batch]
  have 1: "?raw \<in> set (requests (call_tool no_defaults accepting ''send-email'' ?raw))"
    by code_simp
  have 2: "opt_member ?batch ''emails'' = JArr [JObj minimal_email]" by simp
  have 3: "safe_parse (z_object send_batch_emails_shape) ?batch = Inr ?batch" by code_simp
  have 4: "opt_member (JObj minimal_email) ''from'' = JUndefined" by (simp add: minimal_email_def)
  from inst' [THEN conjunct2, rule_format, of "[JObj minimal_email]"] 2 3 4
  have 5: "\<exists>rs. requests (call_tool with_defaults accepting ''send-batch-emails'' ?batch) = [JArr rs]
         \<and> length rs = 1 \<and> opt_member (rs ! 0) ''from'' = senderEmailAddress with_defaults"
    by auto
  from inst [THEN conjunct1, rule_format, OF 1] 1 2 3 5 show ?thesis by (intro conjI)
qed


text \<open>
  Claim C1 as stated fails for send-email: with a default sender configured, the request
  of an invocation that supplies \<^verbatim>\<open>from\<close> carries the default, not the supplied address.
\<close>

theorem supplied_sender_counterexample:
  "opt_member (JObj [(''to'', JStr ''a@x.com''), (''subject'', JStr ''Hi''), (''text'', JStr ''Body''),
                     (''from'', JStr ''s@x.com'')]) ''from'' = JStr ''s@x.com''
   \<and> senderEmailAddress with_defaults = JStr ''d@x.com''
   \<and> requests (call_tool with_defaults accepting ''send-email''
        (JObj [(''to'', JStr ''a@x.com''), (''subject'', JStr ''Hi''), (''text'', JStr ''Body''),
               (''from'', JStr ''s@x.com'')]))
      = [JObj [(''to'', JStr ''a@x.com''), (''subject'', JStr ''Hi''), (''text'', JStr ''Body''),
               (''from'', JStr ''d@x.com''), (''replyTo'', JArr [JStr ''r@x.com''])]]"
  by code_simp

text \<open>
  Claim C4, as the code has it. With no configured reply-to address, \<^verbatim>\<open>replyTo\<close> is an
  optional parameter of send-email and the request carries the supplied address or
  non-empty list; a supplied empty list is dropped like an omitted one. With one or more
  configured addresses, \<^verbatim>\<open>replyTo\<close> is not a parameter and every request carries the
  configured list.
\<close>

theorem reply_to_resolution:
  "(replierEmailAddresses cfg = [] \<longrightarrow>
      map_of (send_email_shape cfg) ''replyTo'' = Some (z_optional addresses)
      \<and> (\<forall>r\<in>set (requests (call_tool cfg resend ''send-email'' raw)).
            opt_member r ''replyTo''
              = (if opt_member raw ''replyTo'' = JArr [] then JUndefined else opt_member raw ''replyTo'')))
   \<and> (replierEmailAddresses cfg \<noteq> [] \<longrightarrow>
      map_of (send_email_shape cfg) ''replyTo'' = None
      \<and> (\<forall>r\<in>set (requests (call_tool cfg resend ''send-email'' raw)).
            opt_member r ''replyTo'' = JArr (replierEmailAddresses cfg)))"
proof -
  have shape: "map_of (send_email_shape cfg) ''replyTo''
      = (if replierEmailAddresses cfg = [] then Some (z_optional addresses) else None)"
    by (cases "truthy (senderEmailAddress cfg)") (simp_all add: send_email_shape_def)
  have req: "\<forall>r\<in>set (requests (call_tool cfg resend ''send-email'' raw)).
      opt_member r ''replyTo''
        = (if replierEmailAddresses cfg = []
           then (if opt_member raw ''replyTo'' = JArr [] then JUndefined else opt_member raw ''replyTo'')
           else JArr (replierEmailAddresses cfg))"
  proof (rule call_tool_cases [OF tool_send_email [of cfg], of raw resend], goal_cases invalid valid)
    case (invalid issues)
    then show ?case by simp
  next
    case (valid a)
    from valid(1) obtain kvs where raw: "raw = JObj kvs" by (rule accepts_z_object_JObj)
    from valid(1) have acc: "accepts (z_object (send_email_shape cfg)) (JObj kvs) (JObj a)"
      unfolding raw .
    show ?case
      unfolding valid(2) requests_send_email
      by (simp add: resolved_reply_to [OF acc] raw)
  qed
  from shape req show ?thesis by simp
qed

theorem reply_to_resolution_witness:
  "replierEmailAddresses no_defaults = []
   \<and> JObj (minimal_email @ [(''from'', JStr ''s@x.com''), (''replyTo'', JStr ''q@x.com'')])
       \<in> set (requests (call_tool no_defaults accepting ''send-email''
            (JObj (minimal_email @ [(''from'', JStr ''s@x.com''), (''replyTo'', JStr ''q@x.com'')]))))
   \<and> opt_member (JObj (minimal_email @ [(''from'', JStr ''s@x.com''), (''replyTo'', JStr ''q@x.com'')]))
        ''replyTo'' = JStr ''q@x.com''
   \<and> replierEmailAddresses with_defaults \<noteq> []
   \<and> JObj (minimal_email @ [(''from'', JStr ''d@x.com''), (''replyTo'', JArr [JStr ''r@x.com''])])
       \<in> set (requests (call_tool with_defaults accepting ''send-email''
            (JObj (minimal_email @ [(''replyTo'', JStr ''q@x.com'')]))))
   \<and> opt_member (JObj (minimal_email @ [(''from'', JStr ''d@x.com''), (''replyTo'', JArr [JStr ''r@x.com''])]))
        ''replyTo'' = JArr (replierEmailAddresses with_defaults)"
proof -
  let ?raw = "JObj (minimal_email @ [(''from'', JStr ''s@x.com''), (''replyTo'', JStr ''q@x.com'')])"
  let ?raw' = "JObj (minimal_email @ [(''replyTo'', JStr ''q@x.com'')])"
  let ?req' = "JObj (minimal_email @ [(''from'', JStr ''d@x.com''), (''replyTo'', JArr [JStr ''r@x.com''])])"
  have 1: "replierEmailAddresses no_defaults = []" by code_simp
  have 2: "?raw \<in> set (requests (call_tool no_defaults accepting ''send-email'' ?raw))"
    by code_simp
  have 3: "replierEmailAddresses with_defaults \<noteq> []" by code_simp
  have 4: "?req' \<in> set (requests (call_tool with_defaults accepting ''send-email'' ?raw'))"
    by code_simp
  from reply_to_resolution [of no_defaults accepting ?raw, THEN conjunct1, rule_format, OF 1,
      THEN conjunct2, rule_format, OF 2]
  have 5: "opt_member ?raw ''replyTo'' = JStr ''q@x.com''"
    by (simp add: minimal_email_def)
  from reply_to_resolution [of with_defaults accepting ?raw', THEN conjunct2, rule_format, OF 3,
      THEN conjunct2, rule_format, OF 4]
  have 6: "opt_member ?req' ''replyTo'' = JArr (replierEmailAddresses with_defaults)" .
  from 1 2 5 3 4 6 show ?thesis by (intro conjI)
qed

text \<open>
  Claim C4 as stated fails at the empty list: supplied with no configured address, it is
  not used, and the request has no reply-to field.
\<close>

theorem empty_reply_to_counterexample:
  "replierEmailAddresses no_defaults = []
   \<and> requests (call_tool no_defaults accepting ''send-email''
        (JObj [(''to'', JStr ''a@x.com''), (''subject'', JStr ''Hi''), (''text'', JStr ''Body''),
               (''from'', JStr ''s@x.com''), (''replyTo'', JArr [])]))
      = [JObj [(''to'', JStr ''a@x.com''), (''subject'', JStr ''Hi''), (''text'', JStr ''Body''),
               (''from'', JStr ''s@x.com'')]]"
  by code_simp

subsection \<open>The guard on the resolved sender\<close>

text \<open>
  When the configured default sender is a string or there is none, no invocation reaches
  the guard \<^verbatim>\<open>typeof fromEmailAddress !== "string"\<close>.
\<close>

lemma sender_guard_unreachable:
  assumes "is_string (senderEmailAddress cfg) \<or> \<not> truthy (senderEmailAddress cfg)"
  shows "result (call_tool cfg resend ''send-email'' raw) \<noteq> Inl (Error ''from argument must be provided.'')"
proof (rule call_tool_cases [OF tool_send_email [of cfg], of raw resend], goal_cases invalid valid)
  case (invalid issues)
  then show ?case by simp
next
  case (valid a)
  from valid(1) obtain kvs where raw: "raw = JObj kvs" by (rule accepts_z_object_JObj)
  from valid(1) have acc: "accepts (z_object (send_email_shape cfg)) (JObj kvs) (JObj a)"
    unfolding raw .
  have "is_string (nullish (get_prop a ''from'') (senderEmailAddress cfg))"
  proof (cases "truthy (senderEmailAddress cfg)")
    case True
    with assms resolved_sender(1) [OF acc] show ?thesis by simp
  next
    case False
    then show ?thesis by (rule resolved_sender(2) [OF acc])
  qed
  then show ?case
    unfolding valid(2) by (simp add: send_email_def Let_def)
qed

text \<open>
  Claim C10 fails when the command line gives \<^verbatim>\<open>--sender\<close> a value that is not a string (a
  flag without a value is parsed as \<^verbatim>\<open>true\<close>): the default counts as configured, the schema
  has no \<^verbatim>\<open>from\<close>, and an invocation that passes validation is answered by the guard.
\<close>

theorem sender_guard_reached:
  "senderEmailAddress \<lparr>argv_sender = JBool True, env_sender = None,
                        argv_reply_to = JUndefined, env_reply_to = None\<rparr> = JBool True
   \<and> safe_parse (z_object (send_email_shape \<lparr>argv_sender = JBool True, env_sender = None,
                        argv_reply_to = JUndefined, env_reply_to = None\<rparr>)) (JObj minimal_email)
       = Inr (JObj minimal_email)
   \<and> calls (call_tool \<lparr>argv_sender = JBool True, env_sender = None,
                        argv_reply_to = JUndefined, env_reply_to = None\<rparr>
               accepting ''send-email'' (JObj minimal_email)) = []
   \<and> result (call_tool \<lparr>argv_sender = JBool True, env_sender = None,
                        argv_reply_to = JUndefined, env_reply_to = None\<rparr>
               accepting ''send-email'' (JObj minimal_email))
       = Inl (Error ''from argument must be provided.'')"
  by code_simp

subsection \<open>Tags\<close>

text \<open>The tag schema checks only that \<^verbatim>\<open>name\<close> and \<^verbatim>\<open>value\<close> are strings.\<close>

lemma tag_accepts_strings:
  "accepts tag (JObj [(''name'', JStr n), (''value'', JStr v)])
               (JObj [(''name'', JStr n), (''value'', JStr v)])"
  by (simp add: accepts_def tag_def z_object_def z_string_def at_def Let_def)

text \<open>
  Claim C3 fails on the code: a tag whose name is a character outside ASCII and whose value
  has 257 characters passes validation and is forwarded to the provider. No tool checks the
  character set or the length of a tag.
\<close>

theorem tag_format_unchecked:
  "127 < (of_char (CHR 0xE9) :: nat) \<and> 256 < length (replicate 257 CHR ''a'')
   \<and> requests (call_tool no_defaults accepting ''send-email''
        (JObj [(''to'', JStr ''a@x.com''), (''subject'', JStr ''Hi''), (''text'', JStr ''Body''),
               (''from'', JStr ''s@x.com''),
               (''tags'', JArr [JObj [(''name'', JStr [CHR 0xE9]),
                                      (''value'', JStr (replicate 257 CHR ''a''))]])]))
      = [JObj [(''to'', JStr ''a@x.com''), (''subject'', JStr ''Hi''), (''text'', JStr ''Body''),
               (''from'', JStr ''s@x.com''),
               (''tags'', JArr [JObj [(''name'', JStr [CHR 0xE9]),
                                      (''value'', JStr (replicate 257 CHR ''a''))]])]]"
  by code_simp

subsection \<open>Empty optional values\<close>













end
